theory Spec2Isabelle
  imports Complex_Main
begin

section \<open>Data model of the annotation tool\<close>

text \<open>
  The development follows \<^verbatim>\<open>keypoint_annotation_tool.py\<close> (class \<^verbatim>\<open>MainWindow\<close>) and
  \<^verbatim>\<open>convert_txt_to_json.py\<close>.

  \<^item> Python floats are modelled by exact rationals: arithmetic and comparisons are exact,
    \<^verbatim>\<open>round(x, 6)\<close> and the format \<^verbatim>\<open>.6f\<close> round to six decimals, ties to even.
    Infinities and nan have no value here: a JSON number is a finite one, and a TXT token
    that spells one of them ends the reading with \<open>NonFinite\<close>.
  \<^item> \<^verbatim>\<open>keypoints_data\<close> is a dict from point id to a pair of ratios: a map.
    \<^verbatim>\<open>dict.copy()\<close> of a dict of tuples is a value copy, so a snapshot is the map itself.
  \<^item> Text shown to the user is a list of Unicode code points, since the literals of the
    source are Chinese; \<open>ascii\<close> embeds an ASCII literal.
  \<^item> The scene redraw (\<^verbatim>\<open>image_view\<close>) and the list widget are presentation and are not
    part of the state.
\<close>

type_synonym coord = "rat \<times> rat"
type_synonym store = "int \<rightharpoonup> coord"
type_synonym utext = "nat list"

definition ascii :: "string \<Rightarrow> utext" where
  "ascii s = map of_char s"

datatype annotation_format = Txt | Json

text \<open>What \<^verbatim>\<open>str(e)\<close> of a caught exception stands for in a warning text.\<close>
datatype pyexn =
    ValueError string   \<comment> \<open>\<^verbatim>\<open>float(c)\<close> on a token that is no number\<close>
  | KeyError string     \<comment> \<open>\<^verbatim>\<open>kp['id']\<close>, \<^verbatim>\<open>kp['x']\<close>, \<^verbatim>\<open>kp['y']\<close> on a dict without the key\<close>
  | TypeError           \<comment> \<open>subscripting a non-dict, or \<^verbatim>\<open><\<close> between a non-number and 0\<close>
  | AttributeError      \<comment> \<open>\<^verbatim>\<open>data.get\<close> on a JSON value that is not an object\<close>
  | JSONDecodeError     \<comment> \<open>\<^verbatim>\<open>json.load\<close> on text that is not JSON\<close>
  | NonFinite string    \<comment> \<open>no exception: a token that \<^verbatim>\<open>float\<close> reads as an infinity or a nan\<close>

text \<open>A \<^verbatim>\<open>QMessageBox.warning\<close>: either a literal text or a prefix followed by \<^verbatim>\<open>str(e)\<close>.\<close>
datatype dialog =
    Warning utext
  | WarningExn utext pyexn

text \<open>Values that a JSON field \<^verbatim>\<open>x\<close> or \<^verbatim>\<open>y\<close> can hold after \<^verbatim>\<open>json.load\<close>.\<close>
datatype jval = JNull | JBool bool | JNum rat | JStr string | JArr | JObj

text \<open>
  An element of the \<^verbatim>\<open>keypoints\<close> list: a dict, of which the loader reads the keys
  \<^verbatim>\<open>id\<close>, \<^verbatim>\<open>x\<close> and \<^verbatim>\<open>y\<close> (\<open>None\<close>: the key is missing), or a value that is no dict.
  The \<^verbatim>\<open>id\<close> of a dict, when present, is an integer: files with other ids are not
  covered.
\<close>
datatype kp_elem =
    NotADict
  | Entry (kp_id: "int option") (kp_x: "jval option") (kp_y: "jval option")

text \<open>
  The content of a \<^verbatim>\<open>.json\<close> file as \<^verbatim>\<open>json.load\<close> sees it. \<^verbatim>\<open>json.dump\<close> followed by
  \<^verbatim>\<open>json.load\<close> is the identity on the objects the tool writes.
\<close>
datatype json_file =
    Unparsable
  | NotAnObject
  | Object (obj_image_name: "string option") (obj_keypoints: "kp_elem list option")

record main_window =
  image_files :: "string list"          \<comment> \<open>the image paths of the open directory\<close>
  current_image_index :: int
  keypoints_data :: store
  auto_save :: bool
  annotation_format :: annotation_format
  undo_stack :: "store list"
  redo_stack :: "store list"
  image_size :: "(rat \<times> rat) option"  \<comment> \<open>\<^verbatim>\<open>image_view.get_image_size()\<close>; \<open>None\<close> is \<^verbatim>\<open>(None, None)\<close>\<close>
  status_label :: utext
  warnings :: "dialog list"             \<comment> \<open>the warning dialogs shown so far, oldest first\<close>
  txt_files :: "string \<rightharpoonup> string"     \<comment> \<open>image path to the text of its \<^verbatim>\<open>.txt\<close> file\<close>
  json_files :: "string \<rightharpoonup> json_file"  \<comment> \<open>image path to the content of its \<^verbatim>\<open>.json\<close> file\<close>

text \<open>\<^verbatim>\<open>self.max_undo_steps = 10\<close>, assigned in \<^verbatim>\<open>__init__\<close> only.\<close>
definition max_undo_steps :: nat where
  "max_undo_steps = 10"

section \<open>Undo and redo\<close>

definition no_undo_text :: utext where
  "no_undo_text = [0x6ca1, 0x6709, 0x53ef, 0x64a4, 0x9500, 0x7684, 0x64cd, 0x4f5c]"

definition no_redo_text :: utext where
  "no_redo_text = [0x6ca1, 0x6709, 0x53ef, 0x91cd, 0x505a, 0x7684, 0x64cd, 0x4f5c]"

definition not_saved_hint :: utext where
  "not_saved_hint = [0xff08, 0x672a, 0x81ea, 0x52a8, 0x4fdd, 0x5b58, 0xff0c, 0x5982, 0x9700, 0x4fdd,
     0x5b58, 0x8bf7, 0x6309] @ ascii ''Ctrl+S'' @ [0xff09]"

definition undone_text :: utext where
  "undone_text = [0x5df2, 0x64a4, 0x9500] @ not_saved_hint"

definition redone_text :: utext where
  "redone_text = [0x5df2, 0x91cd, 0x505a] @ not_saved_hint"

text \<open>
  \<^verbatim>\<open>save_state\<close>: append a copy of the store to the undo stack, drop the oldest entry
  (\<^verbatim>\<open>pop(0)\<close>) when the stack got longer than \<^verbatim>\<open>max_undo_steps\<close>, clear the redo stack.
  The top of a stack is the end of the list, as \<^verbatim>\<open>append\<close> and \<^verbatim>\<open>pop()\<close> have it.
\<close>
definition save_state :: "main_window \<Rightarrow> main_window" where
  "save_state st =
     (let u = undo_stack st @ [keypoints_data st]
      in st\<lparr>undo_stack := (if length u > max_undo_steps then tl u else u),
            redo_stack := []\<rparr>)"

definition undo :: "main_window \<Rightarrow> main_window" where
  "undo st =
     (if undo_stack st \<noteq> [] then
        st\<lparr>redo_stack := redo_stack st @ [keypoints_data st],
           keypoints_data := last (undo_stack st),
           undo_stack := butlast (undo_stack st),
           status_label := undone_text\<rparr>
      else st\<lparr>status_label := no_undo_text\<rparr>)"

definition redo :: "main_window \<Rightarrow> main_window" where
  "redo st =
     (if redo_stack st \<noteq> [] then
        st\<lparr>undo_stack := undo_stack st @ [keypoints_data st],
           keypoints_data := last (redo_stack st),
           redo_stack := butlast (redo_stack st),
           status_label := redone_text\<rparr>
      else st\<lparr>status_label := no_redo_text\<rparr>)"

text \<open>
  A run of user edits as far as the history sees it: before each edit the store holds
  some value \<open>s\<close>, and the edit starts with \<^verbatim>\<open>save_state\<close>.
\<close>
definition push_snapshots :: "store list \<Rightarrow> main_window \<Rightarrow> main_window" where
  "push_snapshots ss st = fold (\<lambda>s st. save_state (st\<lparr>keypoints_data := s\<rparr>)) ss st"

section \<open>Decimal numerals\<close>

text \<open>\<^verbatim>\<open>str(n)\<close> of a natural number, as \<^verbatim>\<open>{len(coords)}\<close> in an f-string prints it.\<close>

definition digit_char :: "nat \<Rightarrow> char" where
  "digit_char d = ''0123456789'' ! (d mod 10)"

fun show_nat :: "nat \<Rightarrow> string" where
  "show_nat n = (if n < 10 then [digit_char n] else show_nat (n div 10) @ [digit_char (n mod 10)])"

definition show_int :: "int \<Rightarrow> string" where
  "show_int i = (if i < 0 then CHR ''-'' # show_nat (nat (- i)) else show_nat (nat i))"

section \<open>Coordinate conversion\<close>

text \<open>
  \<^verbatim>\<open>pixel_to_ratio\<close> and \<^verbatim>\<open>ratio_to_pixel\<close>: the test
  \<^verbatim>\<open>width and height and width > 0 and height > 0\<close> fails on \<^verbatim>\<open>None\<close> and on zero;
  the functions then return \<^verbatim>\<open>(None, None)\<close>.
\<close>
definition size_ok :: "(rat \<times> rat) option \<Rightarrow> bool" where
  "size_ok sz = (case sz of None \<Rightarrow> False
                 | Some (width, height) \<Rightarrow> width \<noteq> 0 \<and> height \<noteq> 0 \<and> width > 0 \<and> height > 0)"

definition pixel_to_ratio :: "(rat \<times> rat) option \<Rightarrow> rat \<Rightarrow> rat \<Rightarrow> coord option" where
  "pixel_to_ratio sz x y =
     (case sz of None \<Rightarrow> None
      | Some (width, height) \<Rightarrow>
          if width \<noteq> 0 \<and> height \<noteq> 0 \<and> width > 0 \<and> height > 0
          then Some (x / width, y / height) else None)"

definition ratio_to_pixel :: "(rat \<times> rat) option \<Rightarrow> rat \<Rightarrow> rat \<Rightarrow> coord option" where
  "ratio_to_pixel sz ratio_x ratio_y =
     (case sz of None \<Rightarrow> None
      | Some (width, height) \<Rightarrow>
          if width \<noteq> 0 \<and> height \<noteq> 0 \<and> width > 0 \<and> height > 0
          then Some (ratio_x * width, ratio_y * height) else None)"

section \<open>Editing operations\<close>

definition add_failed_text :: utext where
  "add_failed_text = [0x9519, 0x8bef] @ ascii '': '' @ [0x65e0, 0x6cd5, 0x4fdd, 0x5b58, 0x5173,
     0x952e, 0x70b9, 0xff0c, 0x56fe, 0x7247, 0x672a, 0x6b63, 0x786e, 0x52a0, 0x8f7d]"

definition deleted_text :: "int \<Rightarrow> utext" where
  "deleted_text kp = [0x5df2, 0x5220, 0x9664, 0x7b2c] @ ascii '' '' @ ascii (show_int kp)
     @ ascii '' '' @ [0x4e2a, 0x5173, 0x952e, 0x70b9]"

definition cleared_text :: utext where
  "cleared_text = [0x5df2, 0x6e05, 0x7a7a, 0x6240, 0x6709, 0x6807, 0x6ce8]"

definition swapped_text :: "int \<Rightarrow> int \<Rightarrow> utext" where
  "swapped_text id1 id2 = [0x5df2, 0x4ea4, 0x6362, 0x7b2c] @ ascii '' '' @ ascii (show_int id1)
     @ ascii '' '' @ [0x548c] @ ascii '' '' @ ascii (show_int id2)
     @ ascii '' '' @ [0x4e2a, 0x5173, 0x952e, 0x70b9]"

text \<open>
  \<^verbatim>\<open>on_keypoint_added\<close> and \<^verbatim>\<open>on_keypoint_moved\<close> have the same body: save the state,
  convert the pixel position, and store it unless the conversion failed.
\<close>
definition on_keypoint_added :: "int \<Rightarrow> rat \<Rightarrow> rat \<Rightarrow> main_window \<Rightarrow> main_window" where
  "on_keypoint_added kp x y st =
     (let st1 = save_state st
      in case pixel_to_ratio (image_size st1) x y of
           None \<Rightarrow> st1\<lparr>status_label := add_failed_text\<rparr>
         | Some r \<Rightarrow> st1\<lparr>keypoints_data := (keypoints_data st1)(kp \<mapsto> r)\<rparr>)"

definition on_keypoint_moved :: "int \<Rightarrow> rat \<Rightarrow> rat \<Rightarrow> main_window \<Rightarrow> main_window" where
  "on_keypoint_moved kp x y st =
     (let st1 = save_state st
      in case pixel_to_ratio (image_size st1) x y of
           None \<Rightarrow> st1\<lparr>status_label := add_failed_text\<rparr>
         | Some r \<Rightarrow> st1\<lparr>keypoints_data := (keypoints_data st1)(kp \<mapsto> r)\<rparr>)"

text \<open>\<^verbatim>\<open>delete_selected_keypoint\<close>; \<open>current_row\<close> is \<^verbatim>\<open>keypoint_list.currentRow()\<close>.\<close>
definition delete_selected_keypoint :: "int \<Rightarrow> main_window \<Rightarrow> main_window" where
  "delete_selected_keypoint current_row st =
     (if current_row \<ge> 0 then
        (let kp = current_row + 1
         in if kp \<in> dom (keypoints_data st) then
              (let st1 = save_state st
               in st1\<lparr>keypoints_data := (keypoints_data st1)(kp := None),
                      status_label := deleted_text kp\<rparr>)
            else st)
      else st)"

text \<open>
  \<^verbatim>\<open>swap_keypoints\<close>. \<^verbatim>\<open>pos1 and pos2\<close> tests two values that are \<^verbatim>\<open>None\<close> or a
  pair, and a pair is true. The assignments happen in the order of the source. After the
  store is updated the scene is redrawn; the redraw passes the result of
  \<^verbatim>\<open>ratio_to_pixel\<close> on without a check, so with a non-empty store and no usable image
  size it raises and the status text is not reached.
\<close>
definition swap_keypoints :: "int \<Rightarrow> int \<Rightarrow> main_window \<Rightarrow> main_window" where
  "swap_keypoints id1 id2 st =
     (let st1 = save_state st;
          d = keypoints_data st1;
          pos1 = d id1;
          pos2 = d id2;
          d' = (case (pos1, pos2) of
                  (Some p1, Some p2) \<Rightarrow> (d(id1 \<mapsto> p2))(id2 \<mapsto> p1)
                | (Some p1, None) \<Rightarrow> (d(id2 \<mapsto> p1))(id1 := None)
                | (None, Some p2) \<Rightarrow> (d(id1 \<mapsto> p2))(id2 := None)
                | (None, None) \<Rightarrow> d);
          st2 = st1\<lparr>keypoints_data := d'\<rparr>
      in if d' = Map.empty \<or> size_ok (image_size st2)
         then st2\<lparr>status_label := swapped_text id1 id2\<rparr>
         else st2)"

text \<open>\<^verbatim>\<open>clear_annotations\<close>; \<open>yes\<close> is the answer to the confirmation dialog.\<close>
definition clear_annotations :: "bool \<Rightarrow> main_window \<Rightarrow> main_window" where
  "clear_annotations yes st =
     (if yes then
        (let st1 = save_state st
         in st1\<lparr>keypoints_data := Map.empty, status_label := cleared_text\<rparr>)
      else st)"

text \<open>The user actions that touch the store or the history, and a run of them.\<close>
datatype action =
    Add int rat rat
  | Move int rat rat
  | Delete int
  | Swap int int
  | Clear bool
  | Undo
  | Redo

fun perform :: "action \<Rightarrow> main_window \<Rightarrow> main_window" where
  "perform (Add kp x y) st = on_keypoint_added kp x y st"
| "perform (Move kp x y) st = on_keypoint_moved kp x y st"
| "perform (Delete row) st = delete_selected_keypoint row st"
| "perform (Swap id1 id2) st = swap_keypoints id1 id2 st"
| "perform (Clear yes) st = clear_annotations yes st"
| "perform Undo st = undo st"
| "perform Redo st = redo st"

fun is_edit :: "action \<Rightarrow> bool" where
  "is_edit Undo = False"
| "is_edit Redo = False"
| "is_edit _ = True"

definition run :: "action list \<Rightarrow> main_window \<Rightarrow> main_window" where
  "run acts st = fold perform acts st"

section \<open>Text of an annotation file\<close>

text \<open>
  The text of a \<^verbatim>\<open>.txt\<close> file is a \<open>string\<close>: its characters, for files whose characters
  lie below U+0100. \<^verbatim>\<open>str.split()\<close> without argument cuts at runs of whitespace, and
  below U+0100 the whitespace characters are the ones listed here.
\<close>
definition is_space :: "char \<Rightarrow> bool" where
  "is_space c \<longleftrightarrow> (of_char c :: nat) \<in> {9, 10, 11, 12, 13, 28, 29, 30, 31, 32, 133, 160}"

definition py_strip :: "string \<Rightarrow> string" where
  "py_strip s = rev (dropWhile is_space (rev (dropWhile is_space s)))"

text \<open>\<open>cur\<close> is the token read so far.\<close>
primrec split_from :: "string \<Rightarrow> string \<Rightarrow> string list" where
  "split_from cur [] = (if cur = [] then [] else [cur])"
| "split_from cur (c # cs) =
     (if is_space c then (if cur = [] then split_from [] cs else cur # split_from [] cs)
      else split_from (cur @ [c]) cs)"

definition py_split :: "string \<Rightarrow> string list" where
  "py_split s = split_from [] s"

text \<open>\<^verbatim>\<open>' '.join(coords)\<close>.\<close>
fun join_space :: "string list \<Rightarrow> string" where
  "join_space [] = []"
| "join_space [t] = t"
| "join_space (t # ts) = t @ [CHR '' ''] @ join_space ts"

section \<open>Reading and printing numbers\<close>

definition is_digit :: "char \<Rightarrow> bool" where
  "is_digit c \<longleftrightarrow> 48 \<le> (of_char c :: nat) \<and> (of_char c :: nat) \<le> 57"

definition digit_val :: "char \<Rightarrow> nat" where
  "digit_val c = of_char c - 48"

definition nat_of_digits :: "string \<Rightarrow> nat" where
  "nat_of_digits ds = foldl (\<lambda>a c. 10 * a + digit_val c) 0 ds"

definition strip_sign :: "string \<Rightarrow> bool \<times> string" where
  "strip_sign s =
     (case s of
        [] \<Rightarrow> (False, s)
      | c # r \<Rightarrow> if c = CHR ''-'' then (True, r) else if c = CHR ''+'' then (False, r)
                 else (False, s))"

definition is_exp_mark :: "char \<Rightarrow> bool" where
  "is_exp_mark c \<longleftrightarrow> c = CHR ''e'' \<or> c = CHR ''E''"

text \<open>
  A run of digits in which single underscores may stand between two digits: the digits
  without the underscores, or \<open>None\<close> when an underscore stands first, last or beside
  another one, or when some character is neither. The empty run gives no digits.
\<close>
fun no_double_underscore :: "string \<Rightarrow> bool" where
  "no_double_underscore (c # d # r) =
     (\<not> (c = CHR ''_'' \<and> d = CHR ''_'') \<and> no_double_underscore (d # r))"
| "no_double_underscore _ = True"

definition digitpart :: "string \<Rightarrow> string option" where
  "digitpart ds =
     (if ds = [] then Some []
      else if is_digit (hd ds) \<and> is_digit (last ds)
              \<and> list_all (\<lambda>c. is_digit c \<or> c = CHR ''_'') ds \<and> no_double_underscore ds
      then Some (filter (\<lambda>c. c \<noteq> CHR ''_'') ds)
      else None)"

text \<open>The exponent part of a literal, from its \<open>e\<close> on; no exponent part stands for 0.\<close>
definition py_exponent :: "string \<Rightarrow> int option" where
  "py_exponent ex =
     (case ex of
        [] \<Rightarrow> Some 0
      | _ # t \<Rightarrow>
          (let (neg, ds) = strip_sign t
           in case digitpart ds of
                None \<Rightarrow> None
              | Some d \<Rightarrow>
                  if d \<noteq> []
                  then Some (if neg then - int (nat_of_digits d) else int (nat_of_digits d))
                  else None))"

text \<open>
  \<^verbatim>\<open>float\<close> returns the double nearest to the decimal it reads. The exact value stands for
  that double here, with one exception that the sign test of the loaders can see: a
  value of magnitude at most \<open>1 / 2 ^ 1075\<close>, half of the smallest positive double, reads as
  zero. So \<open>v < 0\<close> for the value read here holds exactly when \<^verbatim>\<open>float(c) < 0\<close> does.
  A magnitude beyond the largest double, which \<^verbatim>\<open>float\<close> reads as an infinity, keeps its
  exact value and its sign.
\<close>
definition underflow :: "rat \<Rightarrow> rat" where
  "underflow v = (if \<bar>v\<bar> \<le> 1 / 2 ^ 1075 then 0 else v)"

text \<open>
  \<^verbatim>\<open>float(c)\<close> on a token \<open>c\<close> without whitespace, for the decimal spellings: an optional
  sign, digits with an optional point (at least one digit before or after it), an
  optional exponent; single underscores may stand between digits. \<open>None\<close>: \<open>c\<close> is not
  such a spelling.
\<close>
definition py_float :: "string \<Rightarrow> rat option" where
  "py_float s =
     (let (neg, r) = strip_sign s;
          m = takeWhile (\<lambda>c. \<not> is_exp_mark c) r;
          ex = dropWhile (\<lambda>c. \<not> is_exp_mark c) r;
          ipart = takeWhile (\<lambda>c. c \<noteq> CHR ''.'') m;
          fpart = (case dropWhile (\<lambda>c. c \<noteq> CHR ''.'') m of [] \<Rightarrow> [] | _ # f \<Rightarrow> f)
      in case digitpart ipart of
           None \<Rightarrow> None
         | Some ip \<Rightarrow>
             (case digitpart fpart of
                None \<Rightarrow> None
              | Some fp \<Rightarrow>
                  if ip \<noteq> [] \<or> fp \<noteq> [] then
                    (case py_exponent ex of
                       None \<Rightarrow> None
                     | Some e \<Rightarrow>
                         Some (underflow
                           ((if neg then - 1 else 1)
                            * (of_nat (nat_of_digits ip)
                               + of_nat (nat_of_digits fp) / 10 ^ length fp)
                            * (if 0 \<le> e then 10 ^ nat e else 1 / 10 ^ nat (- e)))))
                  else None))"

text \<open>
  The other spellings that \<^verbatim>\<open>float\<close> accepts: \<^verbatim>\<open>inf\<close>, \<^verbatim>\<open>infinity\<close> and \<^verbatim>\<open>nan\<close>, in any
  mix of upper and lower case, with an optional sign. A pattern lists each letter in both
  cases.
\<close>
definition ci_match :: "(char \<times> char) list \<Rightarrow> string \<Rightarrow> bool" where
  "ci_match pat s \<longleftrightarrow> list_all2 (\<lambda>(l, u) c. c = l \<or> c = u) pat s"

definition is_nonfinite :: "string \<Rightarrow> bool" where
  "is_nonfinite s =
     (let (neg, r) = strip_sign s
      in ci_match (zip ''inf'' ''INF'') r \<or> ci_match (zip ''infinity'' ''INFINITY'') r
         \<or> ci_match (zip ''nan'' ''NAN'') r)"

text \<open>
  \<^verbatim>\<open>coords = [float(c) for c in coords]\<close>: the numbers, or the exception of the first
  token that is no number. A token that spells an infinity or a nan is a number for
  \<^verbatim>\<open>float\<close>, but one without a rational value: the list ends there with \<open>NonFinite\<close>,
  and what the program does with such a file is not described by this model.
\<close>
fun parse_coords :: "string list \<Rightarrow> pyexn + rat list" where
  "parse_coords [] = Inr []"
| "parse_coords (c # cs) =
     (case py_float c of
        None \<Rightarrow> Inl (if is_nonfinite c then NonFinite c else ValueError c)
      | Some v \<Rightarrow> (case parse_coords cs of Inl e \<Rightarrow> Inl e | Inr vs \<Rightarrow> Inr (v # vs)))"

text \<open>Rounding to the nearest integer, a tie to the even neighbour.\<close>
definition round_half_even :: "rat \<Rightarrow> int" where
  "round_half_even q =
     (let f = \<lfloor>q\<rfloor>; d = q - of_int f
      in if d < 1 / 2 then f else if 1 / 2 < d then f + 1 else if even f then f else f + 1)"

text \<open>\<^verbatim>\<open>round(x, 6)\<close>.\<close>
definition py_round6 :: "rat \<Rightarrow> rat" where
  "py_round6 x = of_int (round_half_even (x * 1000000)) / 1000000"

text \<open>The last \<open>w\<close> decimal digits of \<open>k\<close>, with leading zeros.\<close>
primrec zero_pad :: "nat \<Rightarrow> nat \<Rightarrow> string" where
  "zero_pad 0 k = []"
| "zero_pad (Suc w) k = zero_pad w (k div 10) @ [digit_char (k mod 10)]"

definition pad6 :: "nat \<Rightarrow> string" where
  "pad6 k = zero_pad 6 k"

text \<open>The format \<^verbatim>\<open>f"{x:.6f}"\<close>: sign, integer part, point, six digits.\<close>
definition fmt6 :: "rat \<Rightarrow> string" where
  "fmt6 x =
     (let n = nat (round_half_even (\<bar>x\<bar> * 1000000))
      in (if x < 0 then [CHR ''-''] else []) @ show_nat (n div 1000000) @ [CHR ''.'']
         @ pad6 (n mod 1000000))"

section \<open>Loading annotations\<close>

definition txt_count_text :: "nat \<Rightarrow> utext" where
  "txt_count_text n = ascii ''TXT'' @ [0x6587, 0x4ef6, 0x683c, 0x5f0f, 0x9519, 0x8bef, 0xff1a,
     0x5e94, 0x5305, 0x542b] @ ascii ''136'' @ [0x4e2a, 0x5750, 0x6807, 0x503c, 0xff0c, 0x5b9e,
     0x9645] @ ascii (show_nat n) @ [0x4e2a]"

definition txt_failed_prefix :: utext where
  "txt_failed_prefix = [0x52a0, 0x8f7d] @ ascii ''TXT'' @ [0x6807, 0x6ce8, 0x6587, 0x4ef6, 0x5931,
     0x8d25, 0xff1a]"

definition json_failed_prefix :: utext where
  "json_failed_prefix = [0x52a0, 0x8f7d] @ ascii ''JSON'' @ [0x6807, 0x6ce8, 0x6587, 0x4ef6,
     0x5931, 0x8d25, 0xff1a]"

definition loaded_text :: "nat \<Rightarrow> string \<Rightarrow> utext" where
  "loaded_text n fmt = [0x52a0, 0x8f7d, 0x4e86] @ ascii '' '' @ ascii (show_nat n) @ ascii '' ''
     @ [0x4e2a, 0x5173, 0x952e, 0x70b9] @ ascii '' ('' @ ascii fmt @ ascii '')''"

definition not_found_text :: "string \<Rightarrow> utext" where
  "not_found_text fmt = [0x672a, 0x627e, 0x5230] @ ascii fmt @ [0x6807, 0x6ce8, 0x6587, 0x4ef6,
     0xff0c, 0x521b, 0x5efa, 0x65b0, 0x6807, 0x6ce8]"

text \<open>
  One round of the loop of \<^verbatim>\<open>_load_txt_annotations\<close>, for \<open>i\<close> in \<^verbatim>\<open>range(68)\<close>. The
  state of the loop is the store and \<^verbatim>\<open>loaded_count\<close>. The loop runs only after the
  length of \<open>coords\<close> was found to be 136, so both reads are in range.
\<close>
definition txt_round :: "(rat \<times> rat) option \<Rightarrow> rat list \<Rightarrow> nat \<Rightarrow> store \<times> nat \<Rightarrow> store \<times> nat" where
  "txt_round sz coords i acc =
     (let kp = int i + 1;
          ratio_x = coords ! (i * 2);
          ratio_y = coords ! (i * 2 + 1)
      in if ratio_x < 0 \<or> ratio_y < 0 then acc
         else case ratio_to_pixel sz ratio_x ratio_y of
                None \<Rightarrow> acc
              | Some _ \<Rightarrow> ((fst acc)(kp \<mapsto> (ratio_x, ratio_y)), snd acc + 1))"

definition load_txt_annotations :: "string \<Rightarrow> main_window \<Rightarrow> main_window" where
  "load_txt_annotations content st =
     (case parse_coords (py_split (py_strip content)) of
        Inl e \<Rightarrow> st\<lparr>warnings := warnings st @ [WarningExn txt_failed_prefix e]\<rparr>
      | Inr coords \<Rightarrow>
          if length coords \<noteq> 136
          then st\<lparr>warnings := warnings st @ [Warning (txt_count_text (length coords))]\<rparr>
          else
            (let (d, loaded_count) =
                   fold (txt_round (image_size st) coords) [0..<68] (keypoints_data st, 0)
             in st\<lparr>keypoints_data := d, status_label := loaded_text loaded_count ''TXT''\<rparr>))"

text \<open>
  \<^verbatim>\<open>ratio_x < 0\<close> on a JSON value: numbers compare, \<^verbatim>\<open>True\<close> and \<^verbatim>\<open>False\<close> count as 1
  and 0, anything else raises \<^verbatim>\<open>TypeError\<close>.
\<close>
fun num_of :: "jval \<Rightarrow> rat option" where
  "num_of (JNum q) = Some q"
| "num_of (JBool b) = Some (if b then 1 else 0)"
| "num_of _ = None"

text \<open>
  The loop of \<^verbatim>\<open>_load_json_annotations\<close> over the elements of \<^verbatim>\<open>keypoints\<close>. An
  exception ends the loop; the store keeps what the earlier rounds put into it, since
  they wrote into \<^verbatim>\<open>self.keypoints_data\<close> directly. The three reads \<^verbatim>\<open>kp['id']\<close>,
  \<^verbatim>\<open>kp['x']\<close>, \<^verbatim>\<open>kp['y']\<close> come first, in this order; \<^verbatim>\<open>ratio_x < 0 or ratio_y < 0\<close> looks
  at \<open>ratio_y\<close> only when the first test is false.
\<close>
fun json_loop :: "(rat \<times> rat) option \<Rightarrow> kp_elem list \<Rightarrow> store \<Rightarrow> nat \<Rightarrow> store \<times> (pyexn + nat)" where
  "json_loop sz [] d n = (d, Inr n)"
| "json_loop sz (NotADict # kps) d n = (d, Inl TypeError)"
| "json_loop sz (Entry None x y # kps) d n = (d, Inl (KeyError ''id''))"
| "json_loop sz (Entry (Some kp) None y # kps) d n = (d, Inl (KeyError ''x''))"
| "json_loop sz (Entry (Some kp) (Some x) None # kps) d n = (d, Inl (KeyError ''y''))"
| "json_loop sz (Entry (Some kp) (Some x) (Some y) # kps) d n =
     (case num_of x of
        None \<Rightarrow> (d, Inl TypeError)
      | Some ratio_x \<Rightarrow>
          if ratio_x < 0 then json_loop sz kps d n
          else (case num_of y of
                  None \<Rightarrow> (d, Inl TypeError)
                | Some ratio_y \<Rightarrow>
                    if ratio_y < 0 then json_loop sz kps d n
                    else (case ratio_to_pixel sz ratio_x ratio_y of
                            None \<Rightarrow> json_loop sz kps d n
                          | Some _ \<Rightarrow> json_loop sz kps (d(kp \<mapsto> (ratio_x, ratio_y))) (n + 1))))"

definition load_json_annotations :: "json_file \<Rightarrow> main_window \<Rightarrow> main_window" where
  "load_json_annotations f st =
     (case f of
        Unparsable \<Rightarrow> st\<lparr>warnings := warnings st @ [WarningExn json_failed_prefix JSONDecodeError]\<rparr>
      | NotAnObject \<Rightarrow> st\<lparr>warnings := warnings st @ [WarningExn json_failed_prefix AttributeError]\<rparr>
      | Object name kps \<Rightarrow>
          (case json_loop (image_size st) (case kps of None \<Rightarrow> [] | Some l \<Rightarrow> l)
                  (keypoints_data st) 0 of
             (d, Inl e) \<Rightarrow>
               st\<lparr>keypoints_data := d,
                  warnings := warnings st @ [WarningExn json_failed_prefix e]\<rparr>
           | (d, Inr loaded_count) \<Rightarrow>
               st\<lparr>keypoints_data := d, status_label := loaded_text loaded_count ''JSON''\<rparr>))"

text \<open>
  \<^verbatim>\<open>load_annotations\<close>: empty the store, then read the file of the active format if the
  image has one.
\<close>
definition load_annotations :: "string \<Rightarrow> main_window \<Rightarrow> main_window" where
  "load_annotations image_path st =
     (let st1 = st\<lparr>keypoints_data := Map.empty\<rparr>
      in case annotation_format st1 of
           Json \<Rightarrow>
             (case json_files st1 image_path of
                Some f \<Rightarrow> load_json_annotations f st1
              | None \<Rightarrow> st1\<lparr>status_label := not_found_text ''JSON''\<rparr>)
         | Txt \<Rightarrow>
             (case txt_files st1 image_path of
                Some content \<Rightarrow> load_txt_annotations content st1
              | None \<Rightarrow> st1\<lparr>status_label := not_found_text ''TXT''\<rparr>))"

section \<open>Saving annotations\<close>

definition saved_text :: "string \<Rightarrow> utext" where
  "saved_text fmt = [0x6807, 0x6ce8, 0x5df2, 0x4fdd, 0x5b58] @ ascii '' ('' @ ascii fmt @ ascii '')''"

text \<open>\<^verbatim>\<open>image_path.name\<close>: what follows the last slash.\<close>
definition path_name :: "string \<Rightarrow> string" where
  "path_name p = rev (takeWhile (\<lambda>c. c \<noteq> CHR ''/'') (rev p))"

text \<open>The list \<open>coords\<close> that \<^verbatim>\<open>_save_txt_annotations\<close> builds for ids 1 to 68.\<close>
definition txt_coords :: "store \<Rightarrow> string list" where
  "txt_coords d =
     concat (map (\<lambda>kp. case d kp of
                          Some (ratio_x, ratio_y) \<Rightarrow> [fmt6 ratio_x, fmt6 ratio_y]
                        | None \<Rightarrow> [''-1.000000'', ''-1.000000''])
                 [1..68])"

text \<open>Writing the file is taken to succeed.\<close>
definition save_txt_annotations :: "string \<Rightarrow> main_window \<Rightarrow> main_window" where
  "save_txt_annotations image_path st =
     st\<lparr>txt_files := (txt_files st)(image_path \<mapsto> join_space (txt_coords (keypoints_data st))),
        status_label := saved_text ''TXT''\<rparr>"

text \<open>
  The dict that \<^verbatim>\<open>_save_json_annotations\<close> appends for the id \<open>kp\<close>, and the list
  \<open>keypoints\<close> it builds for ids 1 to 68.
\<close>
definition json_entry :: "store \<Rightarrow> int \<Rightarrow> kp_elem" where
  "json_entry d kp =
     (let (ratio_x, ratio_y) = (case d kp of Some p \<Rightarrow> p | None \<Rightarrow> (- 1, - 1))
      in Entry (Some kp) (Some (JNum (py_round6 ratio_x))) (Some (JNum (py_round6 ratio_y))))"

definition json_keypoints :: "store \<Rightarrow> kp_elem list" where
  "json_keypoints d = map (json_entry d) [1..68]"

definition save_json_annotations :: "string \<Rightarrow> main_window \<Rightarrow> main_window" where
  "save_json_annotations image_path st =
     st\<lparr>json_files := (json_files st)(image_path \<mapsto>
            Object (Some (path_name image_path)) (Some (json_keypoints (keypoints_data st)))),
        status_label := saved_text ''JSON''\<rparr>"

definition save_annotations :: "main_window \<Rightarrow> main_window" where
  "save_annotations st =
     (if current_image_index st < 0 \<or> current_image_index st \<ge> int (length (image_files st))
      then st
      else
        (let image_path = image_files st ! nat (current_image_index st)
         in case annotation_format st of
              Json \<Rightarrow> save_json_annotations image_path st
            | Txt \<Rightarrow> save_txt_annotations image_path st))"

section \<open>Handlers that save or load\<close>

text \<open>
  The handlers of \<^verbatim>\<open>MainWindow\<close> that call \<^verbatim>\<open>save_annotations\<close>,
  \<^verbatim>\<open>load_annotations\<close> or \<^verbatim>\<open>load_current_image\<close>, or set what these read.
\<close>

definition format_switched_text :: "string \<Rightarrow> utext" where
  "format_switched_text fmt = [0x6807, 0x6ce8, 0x683c, 0x5f0f, 0x5df2, 0x5207, 0x6362, 0x4e3a]
     @ ascii '' '' @ ascii fmt"

definition images_loaded_text :: "nat \<Rightarrow> utext" where
  "images_loaded_text n = [0x52a0, 0x8f7d, 0x4e86] @ ascii '' '' @ ascii (show_nat n) @ ascii '' ''
     @ [0x5f20, 0x56fe, 0x7247]"

definition no_images_text :: utext where
  "no_images_text = [0x76ee, 0x5f55, 0x4e2d, 0x6ca1, 0x6709, 0x627e, 0x5230, 0x56fe, 0x7247, 0x6587,
     0x4ef6]"

text \<open>
  \<^verbatim>\<open>toggle_annotation_format\<close>. With a current image and a non-empty store it saves
  first: at once when \<^verbatim>\<open>auto_save\<close> is on, otherwise after a question whose answer is
  \<open>reply_yes\<close>. Then it switches the format and loads the file of the new format.
\<close>
definition toggle_annotation_format :: "bool \<Rightarrow> main_window \<Rightarrow> main_window" where
  "toggle_annotation_format reply_yes st =
     (let st1 = (if current_image_index st \<ge> 0 \<and> keypoints_data st \<noteq> Map.empty then
                   (if auto_save st then save_annotations st
                    else if reply_yes then save_annotations st else st)
                 else st);
          st2 = (if annotation_format st1 = Txt
                 then st1\<lparr>annotation_format := Json, status_label := format_switched_text ''JSON''\<rparr>
                 else st1\<lparr>annotation_format := Txt, status_label := format_switched_text ''TXT''\<rparr>)
      in if current_image_index st2 \<ge> 0
            \<and> current_image_index st2 < int (length (image_files st2))
         then load_annotations (image_files st2 ! nat (current_image_index st2)) st2
         else st2)"

text \<open>
  \<^verbatim>\<open>load_current_image\<close>. \<open>sz\<close> is what \<^verbatim>\<open>get_image_size\<close> returns once
  \<^verbatim>\<open>image_view.load_image\<close> has run: the image files are not part of the state.
\<close>
definition load_current_image :: "(rat \<times> rat) option \<Rightarrow> main_window \<Rightarrow> main_window" where
  "load_current_image sz st =
     (if current_image_index st < 0 \<or> current_image_index st \<ge> int (length (image_files st))
      then st
      else
        (let image_path = image_files st ! nat (current_image_index st);
             st1 = load_annotations image_path (st\<lparr>image_size := sz\<rparr>)
         in st1\<lparr>undo_stack := [], redo_stack := []\<rparr>))"

text \<open>
  \<^verbatim>\<open>previous_image\<close> and \<^verbatim>\<open>next_image\<close>: with \<^verbatim>\<open>auto_save\<close> on, save, then move
  and load. No event is pending when they run, so \<^verbatim>\<open>processEvents\<close> does nothing, and
  the \<^verbatim>\<open>assert\<close> holds since \<^verbatim>\<open>save_annotations\<close> leaves the index alone.
\<close>
definition previous_image :: "(rat \<times> rat) option \<Rightarrow> main_window \<Rightarrow> main_window" where
  "previous_image sz st =
     (if current_image_index st > 0 then
        (let st1 = (if auto_save st then save_annotations st else st)
         in load_current_image sz (st1\<lparr>current_image_index := current_image_index st1 - 1\<rparr>))
      else st)"

definition next_image :: "(rat \<times> rat) option \<Rightarrow> main_window \<Rightarrow> main_window" where
  "next_image sz st =
     (if current_image_index st < int (length (image_files st)) - 1 then
        (let st1 = (if auto_save st then save_annotations st else st)
         in load_current_image sz (st1\<lparr>current_image_index := current_image_index st1 + 1\<rparr>))
      else st)"

definition toggle_auto_save :: "bool \<Rightarrow> main_window \<Rightarrow> main_window" where
  "toggle_auto_save enabled st = st\<lparr>auto_save := enabled\<rparr>"

text \<open>
  \<^verbatim>\<open>open_directory\<close> with \<^verbatim>\<open>load_images_from_directory\<close>. \<open>chosen\<close> is \<open>None\<close> when the
  dialog was cancelled, otherwise the sorted list of the image paths found in the chosen
  directory.
\<close>
definition open_directory :: "string list option \<Rightarrow> (rat \<times> rat) option \<Rightarrow> main_window \<Rightarrow> main_window" where
  "open_directory chosen sz st =
     (case chosen of
        None \<Rightarrow> st
      | Some files \<Rightarrow>
          (let st1 = st\<lparr>image_files := files\<rparr>
           in if files \<noteq> [] then
                (load_current_image sz (st1\<lparr>current_image_index := 0\<rparr>))
                  \<lparr>status_label := images_loaded_text (length files)\<rparr>
              else st1\<lparr>warnings := warnings st1 @ [Warning no_images_text]\<rparr>))"

text \<open>\<^verbatim>\<open>closeEvent\<close>.\<close>
definition close_event :: "main_window \<Rightarrow> main_window" where
  "close_event st =
     (if auto_save st \<and> current_image_index st \<ge> 0 then save_annotations st else st)"

text \<open>
  What the user can do to the window, as far as the store, the history, the settings and
  the annotation files are concerned. \<open>Save\<close> is the menu entry connected to
  \<^verbatim>\<open>save_annotations\<close>; the keys A, D and Delete call \<^verbatim>\<open>previous_image\<close>,
  \<^verbatim>\<open>next_image\<close> and \<^verbatim>\<open>delete_selected_keypoint\<close>. The other handlers (zoom, display
  style, labels, selection, reference image, about) touch neither of these and open no file
  for writing.
\<close>
datatype ui_action =
    Act action
  | Save
  | PreviousImage "(rat \<times> rat) option"
  | NextImage "(rat \<times> rat) option"
  | ToggleFormat bool
  | ToggleAutoSave bool
  | OpenDirectory "string list option" "(rat \<times> rat) option"
  | CloseWindow

fun handle :: "ui_action \<Rightarrow> main_window \<Rightarrow> main_window" where
  "handle (Act a) st = perform a st"
| "handle Save st = save_annotations st"
| "handle (PreviousImage sz) st = previous_image sz st"
| "handle (NextImage sz) st = next_image sz st"
| "handle (ToggleFormat reply_yes) st = toggle_annotation_format reply_yes st"
| "handle (ToggleAutoSave enabled) st = toggle_auto_save enabled st"
| "handle (OpenDirectory chosen sz) st = open_directory chosen sz st"
| "handle CloseWindow st = close_event st"

section \<open>The batch converter\<close>

text \<open>What \<^verbatim>\<open>convert_txt_to_json\<close> prints: a text, or a prefix followed by \<^verbatim>\<open>str(e)\<close>.\<close>
datatype printed =
    Line utext
  | LineExn utext pyexn

definition conv_count_text :: "nat \<Rightarrow> utext" where
  "conv_count_text n = ascii ''  '' @ [0x2717] @ ascii '' '' @ [0x5750, 0x6807, 0x6570, 0x91cf,
     0x4e0d, 0x6b63, 0x786e] @ ascii '': '' @ ascii (show_nat n) @ [0xff0c, 0x671f, 0x671b]
     @ ascii ''136 (68'' @ [0x4e2a, 0x70b9] @ ascii ''x2)''"

definition conv_failed_prefix :: utext where
  "conv_failed_prefix = ascii ''  '' @ [0x2717] @ ascii '' '' @ [0x8f6c, 0x6362, 0x5931, 0x8d25]
     @ ascii '': ''"

definition conv_ok_text :: "string \<Rightarrow> utext" where
  "conv_ok_text json_name = ascii ''  '' @ [0x2713] @ ascii '' '' @ [0x6210, 0x529f, 0x8f6c, 0x6362]
     @ ascii '': '' @ ascii json_name"

text \<open>
  \<^verbatim>\<open>convert_txt_to_json\<close> on the text of the \<^verbatim>\<open>.txt\<close> file: the returned flag, the line
  printed, and the JSON object written if any. \<open>image_name\<close> is \<^verbatim>\<open>image_file.name\<close>,
  \<open>json_name\<close> the name of the \<^verbatim>\<open>.json\<close> file beside it. Reading and writing the files
  is taken to succeed.
\<close>
definition convert_txt_to_json :: "string \<Rightarrow> string \<Rightarrow> string \<Rightarrow> bool \<times> printed \<times> json_file option" where
  "convert_txt_to_json content image_name json_name =
     (case parse_coords (py_split (py_strip content)) of
        Inl e \<Rightarrow> (False, LineExn conv_failed_prefix e, None)
      | Inr coords \<Rightarrow>
          if length coords \<noteq> 136
          then (False, Line (conv_count_text (length coords)), None)
          else
            (True, Line (conv_ok_text json_name),
             Some (Object (Some image_name)
                     (Some (map (\<lambda>i. Entry (Some (int i + 1))
                                        (Some (JNum (py_round6 (coords ! (i * 2)))))
                                        (Some (JNum (py_round6 (coords ! (i * 2 + 1))))))
                                [0..<68])))))"

text \<open>The window as \<^verbatim>\<open>__init__\<close> leaves it, over a directory without annotation files.\<close>
definition initial_window :: main_window where
  "initial_window =
     \<lparr>image_files = [], current_image_index = - 1,
      keypoints_data = Map.empty, auto_save = True, annotation_format = Txt,
      undo_stack = [], redo_stack = [], image_size = None,
      status_label = [0x5c31, 0x7eea], warnings = [],
      txt_files = Map.empty, json_files = Map.empty\<rparr>"

text \<open>The two stacks together hold at most \<^verbatim>\<open>max_undo_steps\<close> snapshots.\<close>
definition history_ok :: "main_window \<Rightarrow> bool" where
  "history_ok st \<longleftrightarrow> length (undo_stack st) + length (redo_stack st) \<le> max_undo_steps"

section \<open>Notions used in the statements\<close>

text \<open>A store "up to 6-decimal rounding": each coordinate rounded as \<^verbatim>\<open>round(x, 6)\<close> does.\<close>
definition round_store :: "store \<Rightarrow> store" where
  "round_store s = (\<lambda>k. case s k of None \<Rightarrow> None
                         | Some (x, y) \<Rightarrow> Some (py_round6 x, py_round6 y))"

text \<open>No stored coordinate is negative.\<close>
definition nonneg_store :: "store \<Rightarrow> bool" where
  "nonneg_store s \<longleftrightarrow> (\<forall>k x y. s k = Some (x, y) \<longrightarrow> 0 \<le> x \<and> 0 \<le> y)"

text \<open>
  Example inputs: a window with the image \<^verbatim>\<open>a.jpg\<close> of 800 by 600 pixels loaded; a TXT
  file of 135 numbers; a JSON file whose second entry lacks \<^verbatim>\<open>y\<close>; a JSON file whose
  entry for id 5 is the sentinel pair; a TXT file of 136 numbers whose pair for id 5 is the
  sentinel pair.
\<close>
definition short_txt :: string where
  "short_txt = join_space (replicate 135 ''0.5'')"

definition broken_json :: json_file where
  "broken_json = Object (Some ''a.jpg'')
     (Some [Entry (Some 1) (Some (JNum (1 / 2))) (Some (JNum (1 / 2))),
            Entry (Some 2) (Some (JNum (1 / 2))) None])"



definition opened_window :: main_window where
  "opened_window = initial_window\<lparr>image_files := [''a.jpg''], current_image_index := 0,
     image_size := Some (800, 600)\<rparr>"

text \<open>
  Whether the handler of an action, started in the state \<open>st\<close>, reaches a call of
  \<^verbatim>\<open>save_annotations\<close>.
\<close>
fun calls_save :: "ui_action \<Rightarrow> main_window \<Rightarrow> bool" where
  "calls_save Save st = True"
| "calls_save (PreviousImage sz) st = (current_image_index st > 0 \<and> auto_save st)"
| "calls_save (NextImage sz) st =
     (current_image_index st < int (length (image_files st)) - 1 \<and> auto_save st)"
| "calls_save (ToggleFormat reply_yes) st =
     (current_image_index st \<ge> 0 \<and> keypoints_data st \<noteq> Map.empty \<and> (auto_save st \<or> reply_yes))"
| "calls_save CloseWindow st = (auto_save st \<and> current_image_index st \<ge> 0)"
| "calls_save (Act a) st = False"
| "calls_save (ToggleAutoSave enabled) st = False"
| "calls_save (OpenDirectory chosen sz) st = False"

text \<open>
  More example inputs: the window with point 1 placed at the centre of \<^verbatim>\<open>a.jpg\<close> and
  nothing saved yet; the window after point 1 was placed, moved twice, and the last move
  undone, so that both stacks hold something.
\<close>
definition annotated_window :: main_window where
  "annotated_window = opened_window\<lparr>keypoints_data := [1 \<mapsto> (1 / 2, 1 / 2)]\<rparr>"

definition edited_window :: main_window where
  "edited_window = run [Add 1 400 300, Move 1 200 150, Move 1 0 0, Undo] opened_window"

declare show_nat.simps [simp del]

section \<open>History bound\<close>

lemma save_state_undo_stack:
  "undo_stack (save_state st) =
     (if length (undo_stack st) < max_undo_steps then undo_stack st @ [keypoints_data st]
      else tl (undo_stack st @ [keypoints_data st]))"
  by (simp add: save_state_def Let_def)

lemma save_state_redo_stack: "redo_stack (save_state st) = []"
  by (simp add: save_state_def Let_def)

lemma save_state_keypoints_data: "keypoints_data (save_state st) = keypoints_data st"
  by (simp add: save_state_def Let_def)

lemma save_state_length:
  "length (undo_stack st) \<le> max_undo_steps \<Longrightarrow> length (undo_stack (save_state st)) \<le> max_undo_steps"
  by (simp add: save_state_undo_stack)

lemma push_snapshots_Nil: "push_snapshots [] st = st"
  by (simp add: push_snapshots_def)

lemma push_snapshots_snoc:
  "push_snapshots (ss @ [s]) st = save_state ((push_snapshots ss st)\<lparr>keypoints_data := s\<rparr>)"
  by (simp add: push_snapshots_def)

lemma push_snapshots_undo_stack:
  "undo_stack st = [] \<Longrightarrow>
   undo_stack (push_snapshots ss st) = drop (length ss - max_undo_steps) ss"
proof (induction ss rule: rev_induct)
  case Nil
  then show ?case by (simp add: push_snapshots_Nil)
next
  case (snoc s ss)
  then have ih: "undo_stack (push_snapshots ss st) = drop (length ss - max_undo_steps) ss"
    by simp
  show ?case
  proof (cases "length ss < max_undo_steps")
    case True
    then show ?thesis
      by (simp add: push_snapshots_snoc save_state_undo_stack ih)
  next
    case False
    then have "drop (length ss - max_undo_steps) ss \<noteq> []"
      by (simp add: max_undo_steps_def)
    moreover from False have "length ss - 9 = Suc (length ss - 10)"
      by (simp add: max_undo_steps_def)
    ultimately show ?thesis
      using False
      by (simp add: push_snapshots_snoc save_state_undo_stack ih max_undo_steps_def
          tl_drop drop_Suc)
  qed
qed

lemma undo_undo_stack: "undo_stack (undo st) = butlast (undo_stack st)"
  by (simp add: undo_def)

lemma undo_keypoints_data:
  "keypoints_data (undo st) =
     (if undo_stack st = [] then keypoints_data st else last (undo_stack st))"
  by (simp add: undo_def)

lemma undo_funpow_undo_stack:
  "undo_stack ((undo ^^ n) st) = take (length (undo_stack st) - n) (undo_stack st)"
proof (induction n)
  case 0
  then show ?case by simp
next
  case (Suc n)
  then show ?case
    by (simp add: undo_undo_stack butlast_take)
qed

lemma undo_funpow_keypoints_data:
  assumes "0 < n" and "n \<le> length (undo_stack st)"
  shows "keypoints_data ((undo ^^ n) st) = undo_stack st ! (length (undo_stack st) - n)"
proof -
  obtain m where n: "n = Suc m"
    using assms(1) by (cases n) auto
  have u: "undo_stack ((undo ^^ m) st) = take (length (undo_stack st) - m) (undo_stack st)"
    by (rule undo_funpow_undo_stack)
  from assms(2) n have ne: "undo_stack ((undo ^^ m) st) \<noteq> []"
    by (auto simp add: u)
  have "keypoints_data ((undo ^^ n) st) = last (undo_stack ((undo ^^ m) st))"
    by (simp add: n undo_keypoints_data ne)
  also have "\<dots> = take (length (undo_stack st) - m) (undo_stack st) ! (length (undo_stack st) - n)"
  proof -
    have "length (take (length (undo_stack st) - m) (undo_stack st)) - 1 = length (undo_stack st) - n"
      using assms(2) n by simp
    then show ?thesis
      using ne by (simp add: u last_conv_nth del: length_take)
  qed
  also have "\<dots> = undo_stack st ! (length (undo_stack st) - n)"
    using assms(2) n by simp
  finally show ?thesis .
qed

lemma undo_funpow_exhausted:
  "length (undo_stack st) \<le> n \<Longrightarrow> undo_stack st \<noteq> [] \<Longrightarrow>
   keypoints_data ((undo ^^ n) st) = undo_stack st ! 0"
proof (induction n)
  case 0
  then show ?case by simp
next
  case (Suc n)
  show ?case
  proof (cases "length (undo_stack st) \<le> n")
    case True
    with Suc have "keypoints_data ((undo ^^ n) st) = undo_stack st ! 0" by simp
    moreover from True have "undo_stack ((undo ^^ n) st) = []"
      by (simp add: undo_funpow_undo_stack)
    ultimately show ?thesis by (simp add: undo_keypoints_data)
  next
    case False
    with Suc.prems have eq: "Suc n = length (undo_stack st)" by simp
    have "keypoints_data ((undo ^^ length (undo_stack st)) st) = undo_stack st ! 0"
      using undo_funpow_keypoints_data [of "length (undo_stack st)" st] Suc.prems by simp
    then show ?thesis
      unfolding eq .
  qed
qed

text \<open>
  Claim C6. The undo stack holds at most ten snapshots and drops the oldest first: after
  twelve snapshots \<open>ss\<close> pushed by \<^verbatim>\<open>save_state\<close> onto an empty undo stack, the stack is
  the last ten of them in order; \<open>n\<close> undos, for \<open>n\<close> from 1 to 10, restore the snapshot
  \<open>ss ! (12 - n)\<close>; and from the tenth undo on the store stays at \<open>ss ! 2\<close> with an empty
  undo stack, so the snapshots \<open>ss ! 0\<close> and \<open>ss ! 1\<close> are never restored.
\<close>
theorem history_bound:
  assumes "undo_stack st = []" and "length ss = 12"
  shows "undo_stack (push_snapshots ss st) = drop 2 ss \<and>
         (\<forall>n. 0 < n \<and> n \<le> 10 \<longrightarrow>
           keypoints_data ((undo ^^ n) (push_snapshots ss st)) = ss ! (12 - n)) \<and>
         (\<forall>n. 10 \<le> n \<longrightarrow>
           keypoints_data ((undo ^^ n) (push_snapshots ss st)) = ss ! 2 \<and>
           undo_stack ((undo ^^ n) (push_snapshots ss st)) = [])"
proof (intro conjI)
  show u: "undo_stack (push_snapshots ss st) = drop 2 ss"
    using assms by (simp add: push_snapshots_undo_stack max_undo_steps_def)
  show "\<forall>n. 0 < n \<and> n \<le> 10 \<longrightarrow>
           keypoints_data ((undo ^^ n) (push_snapshots ss st)) = ss ! (12 - n)"
  proof (intro allI impI)
    fix n :: nat
    assume n: "0 < n \<and> n \<le> 10"
    then have "2 + (10 - n) = 12 - n" by arith
    with n show "keypoints_data ((undo ^^ n) (push_snapshots ss st)) = ss ! (12 - n)"
      using assms by (simp add: undo_funpow_keypoints_data u)
  qed
  show "\<forall>n. 10 \<le> n \<longrightarrow>
           keypoints_data ((undo ^^ n) (push_snapshots ss st)) = ss ! 2 \<and>
           undo_stack ((undo ^^ n) (push_snapshots ss st)) = []"
    using assms by (auto simp add: undo_funpow_exhausted undo_funpow_undo_stack u)
qed

theorem history_bound_witness:
  "undo_stack initial_window = [] \<and>
   length (map (\<lambda>i. [1 \<mapsto> (of_int i, 0)]) [1..12]) = 12 \<and>
   undo_stack (push_snapshots (map (\<lambda>i. [1 \<mapsto> (of_int i, 0)]) [1..12]) initial_window)
     = drop 2 (map (\<lambda>i. [1 \<mapsto> (of_int i, 0)]) [1..12])"
  using history_bound [of initial_window "map (\<lambda>i. [1 \<mapsto> (of_int i, 0)]) [1..12]"]
  by (simp add: initial_window_def)

section \<open>The two stacks together\<close>

lemma history_ok_save_state: "history_ok st \<Longrightarrow> history_ok (save_state st)"
  by (simp add: history_ok_def save_state_undo_stack save_state_redo_stack)

lemma history_ok_undo: "history_ok st \<Longrightarrow> history_ok (undo st)"
  by (cases "undo_stack st") (auto simp add: history_ok_def undo_def)

lemma history_ok_redo: "history_ok st \<Longrightarrow> history_ok (redo st)"
  by (cases "redo_stack st") (auto simp add: history_ok_def redo_def)

lemma history_ok_update:
  "history_ok (st\<lparr>keypoints_data := d\<rparr>) = history_ok st"
  "history_ok (st\<lparr>status_label := t\<rparr>) = history_ok st"
  by (simp_all add: history_ok_def)

lemma history_ok_perform: "history_ok st \<Longrightarrow> history_ok (perform a st)"
proof (cases a)
  case (Add kp x y)
  assume "history_ok st"
  then have "history_ok (save_state st)" by (rule history_ok_save_state)
  then show ?thesis
    by (simp add: Add on_keypoint_added_def Let_def history_ok_update split: option.split)
next
  case (Move kp x y)
  assume "history_ok st"
  then have "history_ok (save_state st)" by (rule history_ok_save_state)
  then show ?thesis
    by (simp add: Move on_keypoint_moved_def Let_def history_ok_update split: option.split)
next
  case (Delete row)
  assume h: "history_ok st"
  then have "history_ok (save_state st)" by (rule history_ok_save_state)
  with h show ?thesis
    by (simp add: Delete delete_selected_keypoint_def Let_def history_ok_def)
next
  case (Swap id1 id2)
  assume "history_ok st"
  then have "history_ok (save_state st)" by (rule history_ok_save_state)
  then show ?thesis
    by (simp add: Swap swap_keypoints_def Let_def history_ok_def)
next
  case (Clear yes)
  assume h: "history_ok st"
  then have "history_ok (save_state st)" by (rule history_ok_save_state)
  with h show ?thesis
    by (simp add: Clear clear_annotations_def Let_def history_ok_def)
next
  case Undo
  assume "history_ok st"
  then show ?thesis by (simp add: Undo history_ok_undo)
next
  case Redo
  assume "history_ok st"
  then show ?thesis by (simp add: Redo history_ok_redo)
qed

lemma history_ok_run: "history_ok st \<Longrightarrow> history_ok (run acts st)"
  unfolding run_def
  by (induction acts arbitrary: st) (simp_all add: history_ok_perform)

text \<open>
  Claim C10. From a state with both stacks empty, as \<^verbatim>\<open>load_current_image\<close> leaves them,
  every run of edits, undos and redos keeps the combined length of the undo stack and the
  redo stack at ten or below, although \<^verbatim>\<open>redo\<close> appends to the undo stack without a bound
  check.
\<close>
theorem combined_history_bounded:
  assumes "undo_stack st = []" and "redo_stack st = []"
  shows "length (undo_stack (run acts st)) + length (redo_stack (run acts st)) \<le> 10"
proof -
  have "history_ok st"
    using assms by (simp add: history_ok_def)
  then have "history_ok (run acts st)"
    by (rule history_ok_run)
  then show ?thesis
    by (simp add: history_ok_def max_undo_steps_def)
qed

theorem combined_history_bounded_witness:
  "undo_stack initial_window = [] \<and> redo_stack initial_window = [] \<and>
   length (undo_stack (run [Clear True, Clear True, Undo, Redo, Undo] initial_window))
     + length (redo_stack (run [Clear True, Clear True, Undo, Redo, Undo] initial_window)) \<le> 10"
  using combined_history_bounded [of initial_window "[Clear True, Clear True, Undo, Redo, Undo]"]
  by (simp add: initial_window_def)

section \<open>Redo after a fresh edit\<close>

lemma edit_clears_redo:
  "redo_stack (on_keypoint_added kp x y st) = []"
  "redo_stack (on_keypoint_moved kp x y st) = []"
  "redo_stack (swap_keypoints id1 id2 st) = []"
  "redo_stack (clear_annotations True st) = []"
  "0 \<le> row \<Longrightarrow> keypoints_data st (row + 1) \<noteq> None \<Longrightarrow>
     redo_stack (delete_selected_keypoint row st) = []"
  by (auto simp add: on_keypoint_added_def on_keypoint_moved_def delete_selected_keypoint_def
      swap_keypoints_def clear_annotations_def Let_def save_state_redo_stack split: option.split)

lemma edit_skipped:
  "clear_annotations False st = st"
  "row < 0 \<or> keypoints_data st (row + 1) = None \<Longrightarrow> delete_selected_keypoint row st = st"
  by (auto simp add: clear_annotations_def delete_selected_keypoint_def Let_def)

lemma redo_nothing:
  "redo_stack st = [] \<Longrightarrow> redo st = st\<lparr>status_label := no_redo_text\<rparr>"
  by (simp add: redo_def)

lemma edited_window_fields:
  "keypoints_data edited_window = [1 \<mapsto> (1 / 4, 1 / 4)]"
  "undo_stack edited_window = [Map.empty, [1 \<mapsto> (1 / 2, 1 / 2)]]"
  "redo_stack edited_window = [[1 \<mapsto> (0, 0)]]"
  "auto_save edited_window"
  "annotation_format edited_window = Txt"
  "current_image_index edited_window = 0"
  "image_files edited_window = [''a.jpg'']"
  "txt_files edited_window = Map.empty"
  "json_files edited_window = Map.empty"
  by (simp_all add: edited_window_def run_def opened_window_def initial_window_def
      on_keypoint_added_def on_keypoint_moved_def pixel_to_ratio_def save_state_def undo_def
      max_undo_steps_def Let_def)

text \<open>
  Claim C7. Every edit empties the redo stack: adding a point, moving a point, swapping
  two points, clearing after the user confirmed, and deleting when the selected row holds
  an annotated point. Hence after an undo and one of these edits \<^verbatim>\<open>redo\<close> finds nothing to
  redo: it sets the status text to "nothing to redo" and changes nothing else. A clear that
  the user declined, and a delete with no row or with a row that holds no point, are no
  edits: they leave the whole state as it is.
\<close>
theorem edits_clear_redo:
  "redo_stack (on_keypoint_added kp x y st) = [] \<and>
   redo_stack (on_keypoint_moved kp x y st) = [] \<and>
   redo_stack (swap_keypoints id1 id2 st) = [] \<and>
   redo_stack (clear_annotations True st) = [] \<and>
   (0 \<le> row \<and> keypoints_data st (row + 1) \<noteq> None \<longrightarrow>
      redo_stack (delete_selected_keypoint row st) = []) \<and>
   redo (on_keypoint_added kp x y (undo st))
     = (on_keypoint_added kp x y (undo st))\<lparr>status_label := no_redo_text\<rparr> \<and>
   redo (on_keypoint_moved kp x y (undo st))
     = (on_keypoint_moved kp x y (undo st))\<lparr>status_label := no_redo_text\<rparr> \<and>
   redo (swap_keypoints id1 id2 (undo st))
     = (swap_keypoints id1 id2 (undo st))\<lparr>status_label := no_redo_text\<rparr> \<and>
   redo (clear_annotations True (undo st))
     = (clear_annotations True (undo st))\<lparr>status_label := no_redo_text\<rparr> \<and>
   (0 \<le> row \<and> keypoints_data (undo st) (row + 1) \<noteq> None \<longrightarrow>
      redo (delete_selected_keypoint row (undo st))
        = (delete_selected_keypoint row (undo st))\<lparr>status_label := no_redo_text\<rparr>) \<and>
   clear_annotations False st = st \<and>
   (skipped < 0 \<or> keypoints_data st (skipped + 1) = None \<longrightarrow>
      delete_selected_keypoint skipped st = st)"
  using edit_clears_redo(5) [of row st] edit_clears_redo(5) [of row "undo st"]
    edit_skipped(2) [of skipped st]
  by (simp add: edit_clears_redo(1-4) edit_skipped(1) redo_nothing)

theorem edits_clear_redo_witness:
  "redo_stack edited_window = [[1 \<mapsto> (0, 0)]] \<and>
   redo_stack (undo edited_window) = [[1 \<mapsto> (0, 0)], [1 \<mapsto> (1 / 4, 1 / 4)]] \<and>
   keypoints_data edited_window 1 = Some (1 / 4, 1 / 4) \<and>
   keypoints_data (undo edited_window) 1 = Some (1 / 2, 1 / 2) \<and>
   redo_stack (delete_selected_keypoint 0 edited_window) = [] \<and>
   redo (delete_selected_keypoint 0 (undo edited_window))
     = (delete_selected_keypoint 0 (undo edited_window))\<lparr>status_label := no_redo_text\<rparr> \<and>
   keypoints_data edited_window 2 = None \<and>
   delete_selected_keypoint 1 edited_window = edited_window"
  using edits_clear_redo [where st = edited_window and row = 0 and skipped = 1]
  by (simp add: edited_window_fields undo_def)

section \<open>Swapping two points\<close>

lemma swap_keypoints_data:
  "keypoints_data (swap_keypoints id1 id2 st) =
     (\<lambda>k. keypoints_data st (if k = id1 then id2 else if k = id2 then id1 else k))"
proof -
  have status: "keypoints_data (if c then s\<lparr>status_label := t\<rparr> else s) = keypoints_data s"
    for c s t by simp
  show ?thesis
    apply (simp add: swap_keypoints_def Let_def save_state_keypoints_data status)
    apply (auto simp add: fun_eq_iff save_state_keypoints_data split: option.split)
    done
qed

text \<open>
  Claim C2. \<^verbatim>\<open>swap_keypoints\<close> exchanges what the two ids hold, where holding nothing is
  exchanged too: afterwards \<open>id1\<close> holds what \<open>id2\<close> held, \<open>id2\<close> what \<open>id1\<close> held, and every
  other id is unchanged. This covers the four cases (both present, only \<open>id1\<close>, only
  \<open>id2\<close>, neither). No value is lost: the set of stored values is the same. From the
  store \<open>{1: (0.1, 0.1)}\<close>, swapping 1 and 2 gives \<open>{2: (0.1, 0.1)}\<close>.
\<close>
theorem swap_cases:
  "keypoints_data (swap_keypoints id1 id2 st) =
     (\<lambda>k. keypoints_data st (if k = id1 then id2 else if k = id2 then id1 else k)) \<and>
   ran (keypoints_data (swap_keypoints id1 id2 st)) = ran (keypoints_data st) \<and>
   keypoints_data (swap_keypoints 1 2 (st\<lparr>keypoints_data := [1 \<mapsto> (1/10, 1/10)]\<rparr>))
     = [2 \<mapsto> (1/10, 1/10)]"
proof (intro conjI)
  show "keypoints_data (swap_keypoints id1 id2 st) =
     (\<lambda>k. keypoints_data st (if k = id1 then id2 else if k = id2 then id1 else k))"
    by (rule swap_keypoints_data)
  show "ran (keypoints_data (swap_keypoints id1 id2 st)) = ran (keypoints_data st)"
    unfolding swap_keypoints_data ran_def
    by (auto; metis)
  show "keypoints_data (swap_keypoints 1 2 (st\<lparr>keypoints_data := [1 \<mapsto> (1/10, 1/10)]\<rparr>))
     = [2 \<mapsto> (1/10, 1/10)]"
    by (auto simp add: swap_keypoints_data fun_eq_iff)
qed

section \<open>Printing and reading numbers\<close>

declare upt_rec_numeral [simp del] upto_rec_numeral [simp del]

lemma digit_cases:
  "d < 10 \<Longrightarrow> d = 0 \<or> d = 1 \<or> d = 2 \<or> d = 3 \<or> d = 4 \<or> d = 5 \<or> d = 6 \<or> d = 7 \<or> d = 8 \<or> d = (9::nat)"
  by arith

lemma digit_char_props:
  assumes "d < 10"
  shows "is_digit (digit_char d)" and "digit_val (digit_char d) = d"
  using digit_cases [OF assms]
  by (auto simp add: digit_char_def is_digit_def digit_val_def)

lemma is_digit_not_special:
  assumes "is_digit c"
  shows "c \<noteq> CHR ''.''" and "c \<noteq> CHR ''-''" and "c \<noteq> CHR ''+''" and "\<not> is_exp_mark c"
    and "\<not> is_space c"
  using assms by (auto simp add: is_digit_def is_exp_mark_def is_space_def)

lemma show_nat_small: "n < 10 \<Longrightarrow> show_nat n = [digit_char n]"
  by (simp add: show_nat.simps)

lemma show_nat_big: "10 \<le> n \<Longrightarrow> show_nat n = show_nat (n div 10) @ [digit_char (n mod 10)]"
  by (subst show_nat.simps) simp

lemma show_nat_digits: "list_all is_digit (show_nat n)"
proof (induction n rule: show_nat.induct)
  case (1 n)
  show ?case
  proof (cases "n < 10")
    case True
    then show ?thesis by (simp add: show_nat_small digit_char_props)
  next
    case False
    with 1 show ?thesis by (simp add: show_nat_big digit_char_props)
  qed
qed

lemma show_nat_not_Nil: "show_nat n \<noteq> []"
  by (cases "n < 10") (simp_all add: show_nat_small show_nat_big)

lemma nat_of_digits_snoc: "nat_of_digits (ds @ [c]) = 10 * nat_of_digits ds + digit_val c"
  by (simp add: nat_of_digits_def)

lemma nat_of_digits_show_nat: "nat_of_digits (show_nat n) = n"
proof (induction n rule: show_nat.induct)
  case (1 n)
  show ?case
  proof (cases "n < 10")
    case True
    then show ?thesis by (simp add: show_nat_small nat_of_digits_def digit_char_props)
  next
    case False
    with 1 show ?thesis
      by (simp add: show_nat_big nat_of_digits_snoc digit_char_props)
  qed
qed

lemma zero_pad_digits: "list_all is_digit (zero_pad w k)"
  by (induction w arbitrary: k) (simp_all add: digit_char_props)

lemma length_zero_pad: "length (zero_pad w k) = w"
  by (induction w arbitrary: k) simp_all

lemma nat_of_digits_zero_pad: "nat_of_digits (zero_pad w k) = k mod 10 ^ w"
proof (induction w arbitrary: k)
  case 0
  then show ?case by (simp add: nat_of_digits_def)
next
  case (Suc w)
  have "k mod (10 * 10 ^ w) = 10 * (k div 10 mod 10 ^ w) + k mod 10"
    by (rule mod_mult2_eq)
  with Suc show ?case
    by (simp add: nat_of_digits_snoc digit_char_props)
qed

lemma strip_sign_digit: "s \<noteq> [] \<Longrightarrow> is_digit (hd s) \<Longrightarrow> strip_sign s = (False, s)"
  by (cases s) (auto simp add: strip_sign_def is_digit_def)

lemma round_half_even_nonneg: "0 \<le> q \<Longrightarrow> 0 \<le> round_half_even q"
  by (auto simp add: round_half_even_def Let_def)

lemma py_round6_nonneg: "0 \<le> x \<Longrightarrow> 0 \<le> py_round6 x"
  by (simp add: py_round6_def round_half_even_nonneg)

lemma round_half_even_of_int: "round_half_even (of_int i) = i"
  by (simp add: round_half_even_def)

lemma py_round6_minus1: "py_round6 (- 1) = - 1"
proof -
  have "round_half_even (- 1 * 1000000) = - 1000000"
    using round_half_even_of_int [of "- 1000000"] by simp
  then show ?thesis by (simp add: py_round6_def)
qed

lemma no_double_underscore_digits: "list_all is_digit ds \<Longrightarrow> no_double_underscore ds"
proof (induction ds rule: no_double_underscore.induct)
  case (1 c d r)
  then show ?case by (auto simp add: is_digit_def)
qed simp_all

lemma filter_underscore_digits:
  "list_all is_digit ds \<Longrightarrow> filter (\<lambda>c. c \<noteq> CHR ''_'') ds = ds"
  by (induction ds) (auto simp add: is_digit_def)

lemma digitpart_digits: "list_all is_digit ds \<Longrightarrow> digitpart ds = Some ds"
proof (cases "ds = []")
  case True
  then show ?thesis by (simp add: digitpart_def)
next
  case False
  assume d: "list_all is_digit ds"
  with False have "is_digit (hd ds)" "is_digit (last ds)"
    by (simp_all add: list_all_iff)
  moreover from d have "list_all (\<lambda>c. is_digit c \<or> c = CHR ''_'') ds"
    by (simp add: list_all_iff)
  ultimately show ?thesis
    using False d
    by (simp add: digitpart_def no_double_underscore_digits filter_underscore_digits)
qed

lemma underflow_id: "1 / 1000000 \<le> \<bar>v\<bar> \<Longrightarrow> underflow v = v"
proof -
  assume v: "1 / 1000000 \<le> \<bar>v\<bar>"
  have "(2::rat) ^ 20 \<le> 2 ^ 1075"
    by (rule power_increasing) simp_all
  then have "(1000000::rat) < 2 ^ 1075"
    by simp
  then have "1 / 2 ^ 1075 < (1 / 1000000 :: rat)"
    by (simp add: field_simps)
  with v show ?thesis
    by (simp add: underflow_def)
qed

lemma underflow_zero: "underflow 0 = 0"
  by (simp add: underflow_def)

lemma decimal_parts:
  assumes "list_all is_digit ip" and "list_all is_digit fp"
  shows "takeWhile (\<lambda>c. \<not> is_exp_mark c) (ip @ CHR ''.'' # fp) = ip @ CHR ''.'' # fp"
    and "dropWhile (\<lambda>c. \<not> is_exp_mark c) (ip @ CHR ''.'' # fp) = []"
    and "takeWhile (\<lambda>c. c \<noteq> CHR ''.'') (ip @ CHR ''.'' # fp) = ip"
    and "dropWhile (\<lambda>c. c \<noteq> CHR ''.'') (ip @ CHR ''.'' # fp) = CHR ''.'' # fp"
proof -
  let ?s = "ip @ CHR ''.'' # fp"
  have noexp: "\<forall>c\<in>set ?s. \<not> is_exp_mark c"
  proof -
    have "\<not> is_exp_mark CHR ''.''" by (simp add: is_exp_mark_def)
    then show ?thesis
      using assms is_digit_not_special(4) by (auto simp add: list_all_iff)
  qed
  show "takeWhile (\<lambda>c. \<not> is_exp_mark c) ?s = ?s"
    using noexp by (simp add: takeWhile_eq_all_conv del: takeWhile_append)
  show "dropWhile (\<lambda>c. \<not> is_exp_mark c) ?s = []"
    using noexp by (simp del: dropWhile_append)
  have nodot: "\<forall>c\<in>set ip. c \<noteq> CHR ''.''"
    using assms(1) by (auto simp add: list_all_iff is_digit_not_special)
  show "takeWhile (\<lambda>c. c \<noteq> CHR ''.'') ?s = ip"
    using nodot by (simp add: takeWhile_tail)
  show "dropWhile (\<lambda>c. c \<noteq> CHR ''.'') ?s = CHR ''.'' # fp"
    using nodot by (simp add: dropWhile_append3)
qed

lemma py_float_decimal:
  assumes "list_all is_digit ip" and "ip \<noteq> []" and "list_all is_digit fp"
  shows "py_float (ip @ CHR ''.'' # fp)
           = Some (underflow (of_nat (nat_of_digits ip)
                              + of_nat (nat_of_digits fp) / 10 ^ length fp))"
proof -
  let ?s = "ip @ CHR ''.'' # fp"
  have hd: "is_digit (hd ?s)"
    using assms(1,2) by (cases ip) simp_all
  have sign: "strip_sign ?s = (False, ?s)"
    using hd by (intro strip_sign_digit) simp_all
  show ?thesis
    unfolding py_float_def sign
    by (simp add: decimal_parts [OF assms(1,3)] digitpart_digits assms py_exponent_def)
qed

lemma py_float_minus_decimal:
  assumes "list_all is_digit ip" and "ip \<noteq> []" and "list_all is_digit fp"
  shows "py_float (CHR ''-'' # ip @ CHR ''.'' # fp)
           = Some (underflow (- (of_nat (nat_of_digits ip)
                                 + of_nat (nat_of_digits fp) / 10 ^ length fp)))"
proof -
  have sign: "strip_sign (CHR ''-'' # ip @ CHR ''.'' # fp) = (True, ip @ CHR ''.'' # fp)"
    by (simp add: strip_sign_def)
  show ?thesis
    unfolding py_float_def sign
    by (simp add: decimal_parts [OF assms(1,3)] digitpart_digits assms py_exponent_def)
qed

lemma py_float_fmt6:
  assumes "0 \<le> x"
  shows "py_float (fmt6 x) = Some (py_round6 x)"
proof -
  define n where "n = nat (round_half_even (\<bar>x\<bar> * 1000000))"
  have f: "fmt6 x = show_nat (n div 1000000) @ CHR ''.'' # pad6 (n mod 1000000)"
    using assms by (simp add: fmt6_def n_def Let_def)
  have r: "of_nat n = (of_int (round_half_even (x * 1000000)) :: rat)"
    using assms round_half_even_nonneg [of "x * 1000000"] by (simp add: n_def)
  have "py_float (fmt6 x)
          = Some (underflow (of_nat (n div 1000000) + of_nat (n mod 1000000) / 1000000))"
    unfolding f pad6_def
    by (subst py_float_decimal)
      (simp_all add: show_nat_digits show_nat_not_Nil zero_pad_digits nat_of_digits_show_nat
        nat_of_digits_zero_pad length_zero_pad)
  also have "(of_nat (n div 1000000) + of_nat (n mod 1000000) / 1000000 :: rat)
               = of_nat n / 1000000"
  proof -
    have "n = n div 1000000 * 1000000 + n mod 1000000" by simp
    then have "(of_nat n :: rat) = of_nat (n div 1000000) * 1000000 + of_nat (n mod 1000000)"
      by (metis of_nat_add of_nat_mult of_nat_numeral)
    then show ?thesis by (simp add: field_simps)
  qed
  also have "underflow (of_nat n / 1000000) = of_nat n / 1000000"
  proof (cases "n = 0")
    case True
    then show ?thesis by (simp add: underflow_zero)
  next
    case False
    then have "(1::rat) \<le> of_nat n" by simp
    then have "1 / 1000000 \<le> \<bar>of_nat n / 1000000 :: rat\<bar>"
      by (simp add: field_simps)
    then show ?thesis by (rule underflow_id)
  qed
  finally show ?thesis by (simp add: r py_round6_def)
qed

lemma fmt6_clean:
  assumes "0 \<le> x"
  shows "fmt6 x \<noteq> []" and "\<forall>c\<in>set (fmt6 x). \<not> is_space c"
proof -
  define n where "n = nat (round_half_even (\<bar>x\<bar> * 1000000))"
  have f: "fmt6 x = show_nat (n div 1000000) @ CHR ''.'' # pad6 (n mod 1000000)"
    using assms by (simp add: fmt6_def n_def Let_def)
  show "fmt6 x \<noteq> []" by (simp add: f)
  have "\<forall>c\<in>set (show_nat (n div 1000000)). \<not> is_space c"
    using show_nat_digits [of "n div 1000000"] by (auto simp add: list_all_iff is_digit_not_special)
  moreover have "\<forall>c\<in>set (pad6 (n mod 1000000)). \<not> is_space c"
    using zero_pad_digits [of 6 "n mod 1000000"]
    by (auto simp add: pad6_def list_all_iff is_digit_not_special)
  moreover have "\<not> is_space CHR ''.''" by (simp add: is_space_def)
  ultimately show "\<forall>c\<in>set (fmt6 x). \<not> is_space c"
    by (auto simp add: f)
qed

lemma py_float_sentinel: "py_float ''-1.000000'' = Some (- 1)"
proof -
  have "py_float (CHR ''-'' # ''1'' @ CHR ''.'' # ''000000'')
          = Some (underflow (- (of_nat (nat_of_digits ''1'')
                                + of_nat (nat_of_digits ''000000'') / 10 ^ length ''000000'')))"
    by (rule py_float_minus_decimal) (simp_all add: is_digit_def)
  moreover have "underflow (- 1) = - 1"
    by (rule underflow_id) simp
  ultimately show ?thesis
    by (simp add: nat_of_digits_def digit_val_def)
qed

lemma sentinel_clean: "\<forall>c\<in>set ''-1.000000''. \<not> is_space c"
  by (simp add: is_space_def)

section \<open>Splitting a text into tokens, and the TXT loop\<close>

lemma split_from_clean:
  "\<forall>c\<in>set t. \<not> is_space c \<Longrightarrow> split_from cur (t @ rest) = split_from (cur @ t) rest"
  by (induction t arbitrary: cur) simp_all

lemma split_from_join:
  "\<forall>t\<in>set ts. t \<noteq> [] \<and> (\<forall>c\<in>set t. \<not> is_space c) \<Longrightarrow> split_from [] (join_space ts) = ts"
proof (induction ts rule: join_space.induct)
  case 1
  then show ?case by simp
next
  case (2 t)
  then have "split_from [] (t @ []) = split_from ([] @ t) []"
    by (intro split_from_clean) simp
  with 2 show ?case by simp
next
  case (3 t u ts)
  have sp: "is_space CHR '' ''" by (simp add: is_space_def)
  from 3 have "split_from [] (t @ CHR '' '' # join_space (u # ts))
                 = split_from ([] @ t) (CHR '' '' # join_space (u # ts))"
    by (intro split_from_clean) simp
  with 3 sp show ?case by simp
qed

lemma split_from_dropWhile: "split_from [] (dropWhile is_space s) = split_from [] s"
  by (induction s) simp_all

lemma split_from_spaces:
  "\<forall>c\<in>set w. is_space c \<Longrightarrow> split_from cur w = (if cur = [] then [] else [cur])"
  by (induction w arbitrary: cur) simp_all

lemma split_from_trailing:
  "\<forall>c\<in>set w. is_space c \<Longrightarrow> split_from cur (s @ w) = split_from cur s"
  by (induction s arbitrary: cur) (simp_all add: split_from_spaces)

lemma split_from_strip_right: "split_from cur (rev (dropWhile is_space (rev s))) = split_from cur s"
proof -
  have "rev (dropWhile is_space (rev s)) @ rev (takeWhile is_space (rev s)) = s"
    by (metis rev_append rev_rev_ident takeWhile_dropWhile_id)
  moreover have "\<forall>c\<in>set (rev (takeWhile is_space (rev s))). is_space c"
    by (auto dest: set_takeWhileD)
  ultimately show ?thesis
    by (metis split_from_trailing)
qed

lemma py_split_strip: "py_split (py_strip s) = py_split s"
  by (simp add: py_split_def py_strip_def split_from_strip_right split_from_dropWhile)

lemma parse_coords_append:
  "parse_coords xs = Inr vs \<Longrightarrow> parse_coords ys = Inr ws \<Longrightarrow> parse_coords (xs @ ys) = Inr (vs @ ws)"
  by (induction xs arbitrary: vs) (auto split: option.splits sum.splits)

lemma parse_coords_concat:
  "\<forall>k\<in>set ks. parse_coords (f k) = Inr (g k) \<Longrightarrow>
   parse_coords (concat (map f ks)) = Inr (concat (map g ks))"
  by (induction ks) (simp_all add: parse_coords_append)

lemma nth_concat_pairs:
  assumes "\<forall>k. f k = [a k, b k]" and "i < length ks"
  shows "concat (map f ks) ! (i * 2) = a (ks ! i)"
    and "concat (map f ks) ! (i * 2 + 1) = b (ks ! i)"
  using assms(2)
proof (induction ks arbitrary: i)
  case Nil
  { case 1 then show ?case by simp }
  { case 2 then show ?case by simp }
next
  case (Cons k ks)
  { case 1 then show ?case using Cons.IH(1) [of "i - 1"] assms(1) by (cases i) simp_all }
  { case 2 then show ?case using Cons.IH(2) [of "i - 1"] assms(1) by (cases i) simp_all }
qed

lemma length_concat_pairs:
  "\<forall>k. f k = [a k, b k] \<Longrightarrow> length (concat (map f ks)) = 2 * length ks"
  by (induction ks) simp_all

lemma ratio_to_pixel_None: "ratio_to_pixel sz x y = None \<longleftrightarrow> \<not> size_ok sz"
  by (auto simp add: ratio_to_pixel_def size_ok_def split: option.splits)

lemma txt_round_fst:
  "fst (txt_round sz coords i acc) =
     (if size_ok sz \<and> 0 \<le> coords ! (i * 2) \<and> 0 \<le> coords ! (i * 2 + 1)
      then (fst acc)(int i + 1 \<mapsto> (coords ! (i * 2), coords ! (i * 2 + 1)))
      else fst acc)"
  using ratio_to_pixel_None [of sz "coords ! (i * 2)" "coords ! (i * 2 + 1)"]
  by (auto simp add: txt_round_def Let_def split: option.splits)

lemma txt_fold_fst:
  "fst (fold (txt_round sz coords) [0..<n] (d, c)) =
     (\<lambda>k. if 1 \<le> k \<and> k \<le> int n \<and> size_ok sz
               \<and> 0 \<le> coords ! (nat (k - 1) * 2) \<and> 0 \<le> coords ! (nat (k - 1) * 2 + 1)
           then Some (coords ! (nat (k - 1) * 2), coords ! (nat (k - 1) * 2 + 1))
           else d k)"
proof (induction n)
  case 0
  then show ?case by (auto simp add: fun_eq_iff)
next
  case (Suc n)
  show ?case
    by (rule ext) (auto simp add: txt_round_fst Suc)
qed

lemma txt_coords_parse:
  assumes "nonneg_store s"
  shows "parse_coords (txt_coords s) =
           Inr (concat (map (\<lambda>kp. [case s kp of None \<Rightarrow> - 1 | Some (x, y) \<Rightarrow> py_round6 x,
                                     case s kp of None \<Rightarrow> - 1 | Some (x, y) \<Rightarrow> py_round6 y])
                            [1..68]))"
  unfolding txt_coords_def
proof (rule parse_coords_concat, rule ballI)
  fix kp :: int
  show "parse_coords (case s kp of None \<Rightarrow> [''-1.000000'', ''-1.000000'']
                      | Some (ratio_x, ratio_y) \<Rightarrow> [fmt6 ratio_x, fmt6 ratio_y])
          = Inr [case s kp of None \<Rightarrow> - 1 | Some (x, y) \<Rightarrow> py_round6 x,
                 case s kp of None \<Rightarrow> - 1 | Some (x, y) \<Rightarrow> py_round6 y]"
  proof (cases "s kp")
    case None
    then show ?thesis by (simp add: py_float_sentinel)
  next
    case (Some p)
    obtain x y where p: "p = (x, y)" by (cases p)
    with Some assms have "0 \<le> x" "0 \<le> y"
      by (auto simp add: nonneg_store_def)
    with Some p show ?thesis by (simp add: py_float_fmt6)
  qed
qed

lemma txt_coords_clean:
  assumes "nonneg_store s"
  shows "\<forall>t\<in>set (txt_coords s). t \<noteq> [] \<and> (\<forall>c\<in>set t. \<not> is_space c)"
proof
  fix t
  assume "t \<in> set (txt_coords s)"
  then obtain kp where t: "t \<in> set (case s kp of None \<Rightarrow> [''-1.000000'', ''-1.000000'']
                                      | Some (ratio_x, ratio_y) \<Rightarrow> [fmt6 ratio_x, fmt6 ratio_y])"
    unfolding txt_coords_def set_concat set_map by blast
  show "t \<noteq> [] \<and> (\<forall>c\<in>set t. \<not> is_space c)"
  proof (cases "s kp")
    case None
    with t have "t = ''-1.000000''" by simp
    then show ?thesis unfolding is_space_def by simp
  next
    case (Some p)
    obtain x y where p: "p = (x, y)" by (cases p)
    with Some assms have xy: "0 \<le> x" "0 \<le> y"
      by (auto simp add: nonneg_store_def)
    from t Some p have "t = fmt6 x \<or> t = fmt6 y" by simp
    then show ?thesis
    proof
      assume "t = fmt6 x"
      then show ?thesis using fmt6_clean [OF xy(1)] by simp
    next
      assume "t = fmt6 y"
      then show ?thesis using fmt6_clean [OF xy(2)] by simp
    qed
  qed
qed

lemma py_split_saved:
  "nonneg_store s \<Longrightarrow> py_split (py_strip (join_space (txt_coords s))) = txt_coords s"
  unfolding py_split_strip
  by (simp add: py_split_def split_from_join txt_coords_clean)

lemma load_txt_parsed:
  assumes "parse_coords (py_split (py_strip content)) = Inr coords" and "length coords = 136"
  shows "keypoints_data (load_txt_annotations content st)
           = fst (fold (txt_round (image_size st) coords) [0..<68] (keypoints_data st, 0))"
  using assms by (simp add: load_txt_annotations_def split_beta)

lemma load_txt_saved:
  assumes "nonneg_store s"
  shows "keypoints_data (load_txt_annotations (join_space (txt_coords s)) st) =
           (\<lambda>k. if 1 \<le> k \<and> k \<le> 68 \<and> size_ok (image_size st) \<and> s k \<noteq> None
                 then round_store s k else keypoints_data st k)"
proof -
  define a where "a = (\<lambda>kp. case s kp of None \<Rightarrow> - 1 | Some (x, y) \<Rightarrow> py_round6 x)"
  define b where "b = (\<lambda>kp. case s kp of None \<Rightarrow> - 1 | Some (x, y) \<Rightarrow> py_round6 y)"
  define f where "f = (\<lambda>kp. [a kp, b kp])"
  define ids where "ids = [1..68::int]"
  define coords where "coords = concat (map f ids)"
  have f: "\<forall>k. f k = [a k, b k]"
    by (simp add: f_def)
  have ids: "length ids = 68" "\<And>i. i < 68 \<Longrightarrow> ids ! i = 1 + int i"
    by (simp_all add: ids_def)
  have parse: "parse_coords (py_split (py_strip (join_space (txt_coords s)))) = Inr coords"
    using assms
    by (simp add: py_split_saved txt_coords_parse coords_def f_def a_def b_def ids_def)
  have len: "length coords = 136"
    using length_concat_pairs [OF f, of ids] by (simp add: coords_def ids)
  have nth: "coords ! (nat (k - 1) * 2) = a k \<and> coords ! (nat (k - 1) * 2 + 1) = b k"
    if "1 \<le> k" "k \<le> 68" for k
  proof -
    from that have i: "nat (k - 1) < length ids" by (simp add: ids)
    from that have "ids ! nat (k - 1) = k" by (simp add: ids)
    with nth_concat_pairs [OF f i] show ?thesis by (simp add: coords_def)
  qed
  have sign: "(0 \<le> a k \<and> 0 \<le> b k) \<longleftrightarrow> s k \<noteq> None" for k
  proof (cases "s k")
    case None
    then show ?thesis by (simp add: a_def b_def)
  next
    case (Some p)
    obtain x y where p: "p = (x, y)" by (cases p)
    with Some assms have "0 \<le> x" "0 \<le> y"
      by (auto simp add: nonneg_store_def)
    with Some p show ?thesis by (simp add: py_round6_nonneg a_def b_def)
  qed
  have rs: "round_store s k = Some (a k, b k)" if "s k \<noteq> None" for k
    using that by (auto simp add: round_store_def a_def b_def split: option.splits)
  have "keypoints_data (load_txt_annotations (join_space (txt_coords s)) st)
          = fst (fold (txt_round (image_size st) coords) [0..<68] (keypoints_data st, 0))"
    using parse len by (rule load_txt_parsed)
  also have "\<dots> = (\<lambda>k. if 1 \<le> k \<and> k \<le> 68 \<and> size_ok (image_size st) \<and> s k \<noteq> None
                 then round_store s k else keypoints_data st k)"
  proof (rule ext)
    fix k
    show "fst (fold (txt_round (image_size st) coords) [0..<68] (keypoints_data st, 0)) k
            = (if 1 \<le> k \<and> k \<le> 68 \<and> size_ok (image_size st) \<and> s k \<noteq> None
               then round_store s k else keypoints_data st k)"
    proof (cases "1 \<le> k \<and> k \<le> 68")
      case True
      then have n: "coords ! (nat (k - 1) * 2) = a k" "coords ! (nat (k - 1) * 2 + 1) = b k"
        using nth [of k] by simp_all
      show ?thesis
        unfolding txt_fold_fst n
        using True sign [of k] rs [of k] by auto
    next
      case False
      then show ?thesis
        unfolding txt_fold_fst by auto
    qed
  qed
  finally show ?thesis .
qed

section \<open>The JSON loop and the round trip\<close>







lemma ratio_to_pixel_Some: "size_ok sz \<Longrightarrow> \<exists>p. ratio_to_pixel sz x y = Some p"
  using ratio_to_pixel_None [of sz x y] by auto

lemma json_entry_None: "s kp = None \<Longrightarrow> json_entry s kp = Entry (Some kp) (Some (JNum (- 1))) (Some (JNum (- 1)))"
  by (simp add: json_entry_def py_round6_minus1)

lemma json_entry_Some:
  "s kp = Some (x, y) \<Longrightarrow>
   json_entry s kp = Entry (Some kp) (Some (JNum (py_round6 x))) (Some (JNum (py_round6 y)))"
  by (simp add: json_entry_def)

lemma json_loop_saved:
  assumes "nonneg_store s" and "size_ok sz"
  shows "fst (json_loop sz (map (json_entry s) ks) d n)
           = (\<lambda>k. if k \<in> set ks \<and> s k \<noteq> None then round_store s k else d k)
         \<and> (\<exists>m. snd (json_loop sz (map (json_entry s) ks) d n) = Inr m)"
proof (induction ks arbitrary: d n)
  case Nil
  then show ?case by simp
next
  case (Cons kp ks)
  show ?case
  proof (cases "s kp")
    case None
    have step: "json_loop sz (map (json_entry s) (kp # ks)) d n
                  = json_loop sz (map (json_entry s) ks) d n"
      using None by (simp add: json_entry_None)
    have eq: "(\<lambda>k. if k \<in> set ks \<and> s k \<noteq> None then round_store s k else d k)
            = (\<lambda>k. if k \<in> set (kp # ks) \<and> s k \<noteq> None then round_store s k else d k)"
      using None by (auto simp add: fun_eq_iff)
    from Cons [of d n]
    have ih1: "fst (json_loop sz (map (json_entry s) ks) d n)
                 = (\<lambda>k. if k \<in> set ks \<and> s k \<noteq> None then round_store s k else d k)"
      and ih2: "\<exists>m. snd (json_loop sz (map (json_entry s) ks) d n) = Inr m"
      by blast+
    from ih1 eq
    have "fst (json_loop sz (map (json_entry s) ks) d n)
            = (\<lambda>k. if k \<in> set (kp # ks) \<and> s k \<noteq> None then round_store s k else d k)"
      by (rule trans)
    then show ?thesis
      unfolding step using ih2 by (rule conjI)
  next
    case (Some p)
    obtain x y where p: "p = (x, y)" by (cases p)
    with Some assms(1) have xy: "0 \<le> x" "0 \<le> y"
      by (auto simp add: nonneg_store_def)
    then have r: "\<not> py_round6 x < 0" "\<not> py_round6 y < 0"
      using py_round6_nonneg [of x] py_round6_nonneg [of y] by simp_all
    obtain q where q: "ratio_to_pixel sz (py_round6 x) (py_round6 y) = Some q"
      using ratio_to_pixel_Some [OF assms(2)] by blast
    have rs: "round_store s kp = Some (py_round6 x, py_round6 y)"
      using Some p by (simp add: round_store_def)
    have step: "json_loop sz (map (json_entry s) (kp # ks)) d n
                  = json_loop sz (map (json_entry s) ks) (d(kp \<mapsto> (py_round6 x, py_round6 y))) (n + 1)"
      using Some p r q by (simp add: json_entry_Some)
    have eq: "(\<lambda>k. if k \<in> set ks \<and> s k \<noteq> None then round_store s k
               else (d(kp \<mapsto> (py_round6 x, py_round6 y))) k)
            = (\<lambda>k. if k \<in> set (kp # ks) \<and> s k \<noteq> None then round_store s k else d k)"
      using Some p rs by (auto simp add: fun_eq_iff)
    from Cons [of "d(kp \<mapsto> (py_round6 x, py_round6 y))" "n + 1"]
    have ih1: "fst (json_loop sz (map (json_entry s) ks) (d(kp \<mapsto> (py_round6 x, py_round6 y))) (n + 1))
                 = (\<lambda>k. if k \<in> set ks \<and> s k \<noteq> None then round_store s k
                        else (d(kp \<mapsto> (py_round6 x, py_round6 y))) k)"
      and ih2: "\<exists>m. snd (json_loop sz (map (json_entry s) ks)
                          (d(kp \<mapsto> (py_round6 x, py_round6 y))) (n + 1)) = Inr m"
      by blast+
    from ih1 eq
    have "fst (json_loop sz (map (json_entry s) ks) (d(kp \<mapsto> (py_round6 x, py_round6 y))) (n + 1))
            = (\<lambda>k. if k \<in> set (kp # ks) \<and> s k \<noteq> None then round_store s k else d k)"
      by (rule trans)
    then show ?thesis
      unfolding step using ih2 by (rule conjI)
  qed
qed

lemma load_json_saved:
  assumes "nonneg_store s" and "size_ok (image_size st)"
  shows "keypoints_data (load_json_annotations (Object name (Some (json_keypoints s))) st)
           = (\<lambda>k. if 1 \<le> k \<and> k \<le> 68 \<and> s k \<noteq> None then round_store s k
                   else keypoints_data st k)"
proof -
  obtain d r where l: "json_loop (image_size st) (json_keypoints s) (keypoints_data st) 0 = (d, r)"
    by (cases "json_loop (image_size st) (json_keypoints s) (keypoints_data st) 0")
  from json_loop_saved [OF assms, of "[1..68]" "keypoints_data st" 0] l
  have d: "d = (\<lambda>k. if k \<in> set [1..68] \<and> s k \<noteq> None then round_store s k
                       else keypoints_data st k)"
    and r: "\<exists>m. r = Inr m"
    by (simp_all add: json_keypoints_def)
  from r obtain m where "r = Inr m" ..
  with l d show ?thesis
    by (simp add: load_json_annotations_def fun_eq_iff)
qed

lemma round_store_eq:
  "dom s \<subseteq> {1..68} \<Longrightarrow>
   (\<lambda>k. if 1 \<le> k \<and> k \<le> 68 \<and> s k \<noteq> None then round_store s k else None) = round_store s"
  by (auto simp add: fun_eq_iff round_store_def split: option.splits)

text \<open>
  Claim C1, amended. For a store with ids in 1 to 68 and both ratios of every point in
  [0, 1], while an image of positive width and height is loaded: saving in the TXT format
  and loading again gives the store with every coordinate rounded to six decimals, and so
  does saving and loading in the JSON format.
\<close>
theorem round_trip:
  assumes "dom s \<subseteq> {1..68}"
    and "\<forall>k x y. s k = Some (x, y) \<longrightarrow> 0 \<le> x \<and> x \<le> 1 \<and> 0 \<le> y \<and> y \<le> 1"
    and "size_ok (image_size st)"
  shows "keypoints_data (load_annotations p (save_txt_annotations p
            (st\<lparr>keypoints_data := s, annotation_format := Txt\<rparr>))) = round_store s \<and>
         keypoints_data (load_annotations p (save_json_annotations p
            (st\<lparr>keypoints_data := s, annotation_format := Json\<rparr>))) = round_store s"
proof -
  have nn: "nonneg_store s"
    using assms(2) by (auto simp add: nonneg_store_def)
  have "keypoints_data (load_annotations p (save_txt_annotations p
            (st\<lparr>keypoints_data := s, annotation_format := Txt\<rparr>)))
          = (\<lambda>k. if 1 \<le> k \<and> k \<le> 68 \<and> s k \<noteq> None then round_store s k else None)"
    using assms(3)
    by (simp add: load_annotations_def save_txt_annotations_def load_txt_saved [OF nn] cong: if_cong)
  moreover have "keypoints_data (load_annotations p (save_json_annotations p
            (st\<lparr>keypoints_data := s, annotation_format := Json\<rparr>)))
          = (\<lambda>k. if 1 \<le> k \<and> k \<le> 68 \<and> s k \<noteq> None then round_store s k else None)"
    using assms(3)
    by (simp add: load_annotations_def save_json_annotations_def load_json_saved [OF nn] cong: if_cong)
  ultimately show ?thesis
    using round_store_eq [OF assms(1)] by simp
qed

lemma round_half_even_numeral: "round_half_even (numeral n) = numeral n"
  by (simp add: round_half_even_def)

lemma py_round6_half: "py_round6 (1 / 2) = 1 / 2"
  by (simp add: py_round6_def round_half_even_numeral)

lemma parse_coords_replicate:
  "py_float t = Some v \<Longrightarrow> parse_coords (replicate n t) = Inr (replicate n v)"
  by (induction n) simp_all

lemma py_float_half: "py_float ''0.5'' = Some (1 / 2)"
proof -
  have "py_float (''0'' @ CHR ''.'' # ''5'')
          = Some (underflow (of_nat (nat_of_digits ''0'')
                             + of_nat (nat_of_digits ''5'') / 10 ^ length ''5''))"
    by (rule py_float_decimal) (simp_all add: is_digit_def)
  moreover have "underflow (1 / 2) = 1 / 2"
    by (rule underflow_id) simp
  ultimately show ?thesis
    by (simp add: nat_of_digits_def digit_val_def)
qed

lemma short_txt_parse:
  "parse_coords (py_split (py_strip short_txt)) = Inr (replicate 135 (1 / 2))"
proof -
  have "\<forall>t\<in>set (replicate 135 ''0.5''). t \<noteq> [] \<and> (\<forall>c\<in>set t. \<not> is_space c)"
    by (simp add: is_space_def)
  then have "split_from [] (join_space (replicate 135 ''0.5'')) = replicate 135 ''0.5''"
    by (rule split_from_join)
  then have "py_split (py_strip short_txt) = replicate 135 ''0.5''"
    unfolding py_split_strip by (simp add: short_txt_def py_split_def)
  then show ?thesis
    by (simp add: parse_coords_replicate py_float_half)
qed

lemma show_nat_135: "show_nat 135 = ''135''"
  by (simp add: show_nat_big show_nat_small digit_char_def)

lemma size_ok_opened: "size_ok (image_size opened_window)"
  by (simp add: opened_window_def size_ok_def)

theorem round_trip_witness:
  "size_ok (image_size opened_window) \<and>
   keypoints_data (load_annotations ''a.jpg'' (save_txt_annotations ''a.jpg''
     (opened_window\<lparr>keypoints_data := [1 \<mapsto> (1 / 3, 1 / 2)], annotation_format := Txt\<rparr>)))
     = round_store [1 \<mapsto> (1 / 3, 1 / 2)] \<and>
   keypoints_data (load_annotations ''a.jpg'' (save_json_annotations ''a.jpg''
     (opened_window\<lparr>keypoints_data := [1 \<mapsto> (1 / 3, 1 / 2)], annotation_format := Json\<rparr>)))
     = round_store [1 \<mapsto> (1 / 3, 1 / 2)]"
  using round_trip [of "[1 \<mapsto> (1 / 3, 1 / 2)]" opened_window "''a.jpg''"] size_ok_opened
  by simp

text \<open>
  Claim C1 as stated fails when no image size is available: the loader passes every point
  through \<^verbatim>\<open>ratio_to_pixel\<close> and skips the point when that fails, so a file that holds
  point 1 at (0.5, 0.5) loads as an empty store.
\<close>
theorem round_trip_counterexample:
  "keypoints_data (load_annotations ''a.jpg'' (save_txt_annotations ''a.jpg''
     (initial_window\<lparr>image_files := [''a.jpg''], current_image_index := 0,
        keypoints_data := [1 \<mapsto> (1 / 2, 1 / 2)]\<rparr>))) 1 = None \<and>
   round_store [1 \<mapsto> (1 / 2, 1 / 2)] 1 = Some (1 / 2, 1 / 2)"
proof -
  have nn: "nonneg_store [1 \<mapsto> (1 / 2, 1 / 2)]"
    by (simp add: nonneg_store_def)
  show ?thesis
    by (simp add: load_annotations_def save_txt_annotations_def initial_window_def
        load_txt_saved [OF nn] size_ok_def round_store_def py_round6_half)
qed







section \<open>Malformed files\<close>

lemma load_txt_wrong_count:
  assumes "parse_coords (py_split (py_strip content)) = Inr coords" and "length coords \<noteq> 136"
  shows "load_txt_annotations content st
           = st\<lparr>warnings := warnings st @ [Warning (txt_count_text (length coords))]\<rparr>"
  using assms by (simp add: load_txt_annotations_def)

text \<open>
  Claim C4. A TXT file whose tokens are all numbers but are not 136 in number loads as the
  empty store, and one warning is shown whose text names 136 and the actual count.
\<close>
theorem wrong_count_rejected:
  assumes "annotation_format st = Txt"
    and "txt_files st p = Some content"
    and "parse_coords (py_split (py_strip content)) = Inr coords"
    and "length coords \<noteq> 136"
  shows "keypoints_data (load_annotations p st) = Map.empty \<and>
         warnings (load_annotations p st)
           = warnings st @ [Warning (txt_count_text (length coords))] \<and>
         txt_count_text (length coords)
           = ascii ''TXT'' @ [0x6587, 0x4ef6, 0x683c, 0x5f0f, 0x9519, 0x8bef, 0xff1a, 0x5e94, 0x5305,
               0x542b] @ ascii ''136'' @ [0x4e2a, 0x5750, 0x6807, 0x503c, 0xff0c, 0x5b9e, 0x9645]
               @ ascii (show_nat (length coords)) @ [0x4e2a]"
  using assms
  by (simp add: load_annotations_def load_txt_wrong_count [OF assms(3,4)] txt_count_text_def)

theorem wrong_count_rejected_witness:
  "parse_coords (py_split (py_strip short_txt)) = Inr (replicate 135 (1 / 2)) \<and>
   keypoints_data (load_annotations ''a.jpg''
      (opened_window\<lparr>txt_files := [''a.jpg'' \<mapsto> short_txt]\<rparr>)) = Map.empty \<and>
   warnings (load_annotations ''a.jpg''
      (opened_window\<lparr>txt_files := [''a.jpg'' \<mapsto> short_txt]\<rparr>))
     = [Warning (ascii ''TXT'' @ [0x6587, 0x4ef6, 0x683c, 0x5f0f, 0x9519, 0x8bef, 0xff1a, 0x5e94,
          0x5305, 0x542b] @ ascii ''136'' @ [0x4e2a, 0x5750, 0x6807, 0x503c, 0xff0c, 0x5b9e, 0x9645]
          @ ascii ''135'' @ [0x4e2a])]"
  using wrong_count_rejected [of "opened_window\<lparr>txt_files := [''a.jpg'' \<mapsto> short_txt]\<rparr>"
      "''a.jpg''" short_txt "replicate 135 (1 / 2)"] short_txt_parse
  by (simp add: opened_window_def initial_window_def show_nat_135)

text \<open>
  Claim C5 on the code. A JSON file whose second entry has no \<^verbatim>\<open>y\<close> raises
  \<^verbatim>\<open>KeyError\<close> in the second round of the loop; the warning is shown, and the point of
  the first entry stays in the store.
\<close>
theorem json_partial_load:
  "keypoints_data (load_annotations ''a.jpg''
      (opened_window\<lparr>annotation_format := Json, json_files := [''a.jpg'' \<mapsto> broken_json]\<rparr>))
     = [1 \<mapsto> (1 / 2, 1 / 2)] \<and>
   warnings (load_annotations ''a.jpg''
      (opened_window\<lparr>annotation_format := Json, json_files := [''a.jpg'' \<mapsto> broken_json]\<rparr>))
     = [WarningExn json_failed_prefix (KeyError ''y'')]"
  by (simp add: load_annotations_def load_json_annotations_def broken_json_def
      opened_window_def initial_window_def ratio_to_pixel_def)

lemma convert_wrong_count:
  assumes "parse_coords (py_split (py_strip content)) = Inr coords" and "length coords \<noteq> 136"
  shows "convert_txt_to_json content image_name json_name
           = (False, Line (conv_count_text (length coords)), None)"
  using assms by (simp add: convert_txt_to_json_def)

lemma convert_accepts_iff:
  "fst (convert_txt_to_json content image_name json_name)
     \<longleftrightarrow> (\<exists>coords. parse_coords (py_split (py_strip content)) = Inr coords \<and> length coords = 136)"
  by (cases "parse_coords (py_split (py_strip content))")
    (simp_all add: convert_txt_to_json_def)

lemma load_txt_accepts_iff:
  "warnings (load_txt_annotations content st) = warnings st
     \<longleftrightarrow> (\<exists>coords. parse_coords (py_split (py_strip content)) = Inr coords \<and> length coords = 136)"
  by (cases "parse_coords (py_split (py_strip content))")
    (simp_all add: load_txt_annotations_def split_beta)

lemma count_texts_differ: "conv_count_text n \<noteq> txt_count_text m"
  by (simp add: conv_count_text_def txt_count_text_def ascii_def)

text \<open>
  Claim C9, amended. The converter accepts a text exactly when the loader of the tool
  loads it without a warning: both parse every token with \<^verbatim>\<open>float\<close> and require 136
  numbers. On a wrong count each reports the count in a text of its own, and the two
  texts differ.
\<close>
theorem converter_same_rule:
  "(fst (convert_txt_to_json content image_name json_name)
      \<longleftrightarrow> warnings (load_txt_annotations content st) = warnings st) \<and>
   (parse_coords (py_split (py_strip content)) = Inr coords \<and> length coords \<noteq> 136 \<longrightarrow>
      convert_txt_to_json content image_name json_name
        = (False, Line (conv_count_text (length coords)), None) \<and>
      load_txt_annotations content st
        = st\<lparr>warnings := warnings st @ [Warning (txt_count_text (length coords))]\<rparr> \<and>
      conv_count_text (length coords) \<noteq> txt_count_text (length coords))"
  using convert_accepts_iff [of content image_name json_name] load_txt_accepts_iff [of content st]
    convert_wrong_count [of content coords image_name json_name]
    load_txt_wrong_count [of content coords st] count_texts_differ
  by blast

theorem converter_same_rule_witness:
  "parse_coords (py_split (py_strip short_txt)) = Inr (replicate 135 (1 / 2)) \<and>
   convert_txt_to_json short_txt ''a.jpg'' ''a.json''
     = (False, Line (conv_count_text 135), None) \<and>
   warnings (load_txt_annotations short_txt opened_window) = [Warning (txt_count_text 135)]"
  using converter_same_rule [of short_txt "''a.jpg''" "''a.json''" opened_window
      "replicate 135 (1 / 2)"] short_txt_parse
  by (simp add: opened_window_def initial_window_def)

text \<open>
  Claim C9 as stated fails: on a text of 135 numbers the converter prints one text and the
  tool shows another.
\<close>
theorem identical_message_counterexample:
  "snd (convert_txt_to_json short_txt ''a.jpg'' ''a.json'')
     = (Line (ascii ''  '' @ [0x2717] @ ascii '' '' @ [0x5750, 0x6807, 0x6570, 0x91cf, 0x4e0d, 0x6b63,
          0x786e] @ ascii '': 135'' @ [0xff0c, 0x671f, 0x671b] @ ascii ''136 (68'' @ [0x4e2a, 0x70b9]
          @ ascii ''x2)''), None) \<and>
   warnings (load_txt_annotations short_txt opened_window)
     = [Warning (ascii ''TXT'' @ [0x6587, 0x4ef6, 0x683c, 0x5f0f, 0x9519, 0x8bef, 0xff1a, 0x5e94,
          0x5305, 0x542b] @ ascii ''136'' @ [0x4e2a, 0x5750, 0x6807, 0x503c, 0xff0c, 0x5b9e, 0x9645]
          @ ascii ''135'' @ [0x4e2a])] \<and>
   ascii ''  '' @ [0x2717] @ ascii '' '' @ [0x5750, 0x6807, 0x6570, 0x91cf, 0x4e0d, 0x6b63,
          0x786e] @ ascii '': 135'' @ [0xff0c, 0x671f, 0x671b] @ ascii ''136 (68'' @ [0x4e2a, 0x70b9]
          @ ascii ''x2)''
     \<noteq> ascii ''TXT'' @ [0x6587, 0x4ef6, 0x683c, 0x5f0f, 0x9519, 0x8bef, 0xff1a, 0x5e94,
          0x5305, 0x542b] @ ascii ''136'' @ [0x4e2a, 0x5750, 0x6807, 0x503c, 0xff0c, 0x5b9e, 0x9645]
          @ ascii ''135'' @ [0x4e2a]"
proof -
  have n: "length (replicate 135 (1 / 2 :: rat)) \<noteq> 136" by simp
  note c = convert_wrong_count [OF short_txt_parse n, of "''a.jpg''" "''a.json''"]
  note l = load_txt_wrong_count [OF short_txt_parse n, of opened_window]
  show ?thesis
    unfolding c l
    by (simp add: conv_count_text_def txt_count_text_def show_nat_135 ascii_def
        opened_window_def initial_window_def)
qed

section \<open>Undo and redo do not write files\<close>

lemma save_state_files:
  "txt_files (save_state st) = txt_files st" "json_files (save_state st) = json_files st"
  by (simp_all add: save_state_def Let_def)

lemma perform_files:
  "txt_files (perform a st) = txt_files st \<and> json_files (perform a st) = json_files st"
  by (cases a)
    (simp_all add: on_keypoint_added_def on_keypoint_moved_def delete_selected_keypoint_def
      swap_keypoints_def clear_annotations_def undo_def redo_def Let_def save_state_files
      split: option.split)

lemma save_annotations_writes:
  "0 \<le> current_image_index st \<Longrightarrow> current_image_index st < int (length (image_files st)) \<Longrightarrow>
   annotation_format st = Txt \<Longrightarrow>
   txt_files (save_annotations st) (image_files st ! nat (current_image_index st))
     = Some (join_space (txt_coords (keypoints_data st)))"
  by (simp add: save_annotations_def save_txt_annotations_def Let_def)

lemma load_txt_files:
  "txt_files (load_txt_annotations content st) = txt_files st"
  "json_files (load_txt_annotations content st) = json_files st"
  by (simp_all add: load_txt_annotations_def split_beta split: sum.split)

lemma load_json_files:
  "txt_files (load_json_annotations f st) = txt_files st"
  "json_files (load_json_annotations f st) = json_files st"
  by (simp_all add: load_json_annotations_def split: json_file.split prod.split sum.split)

lemma load_annotations_files:
  "txt_files (load_annotations p st) = txt_files st"
  "json_files (load_annotations p st) = json_files st"
  by (simp_all add: load_annotations_def Let_def load_txt_files load_json_files
      split: annotation_format.split option.split)

lemma load_current_image_files:
  "txt_files (load_current_image sz st) = txt_files st"
  "json_files (load_current_image sz st) = json_files st"
  by (simp_all add: load_current_image_def Let_def load_annotations_files)

lemma save_annotations_index:
  "current_image_index (save_annotations st) = current_image_index st"
  "image_files (save_annotations st) = image_files st"
  by (simp_all add: save_annotations_def save_txt_annotations_def save_json_annotations_def Let_def
      split: annotation_format.split)

lemma handle_txt_files:
  "txt_files (handle a st) = (if calls_save a st then txt_files (save_annotations st) else txt_files st)"
proof (cases a)
  case (Act b)
  then show ?thesis using perform_files [of b st] by simp
next
  case (ToggleFormat reply_yes)
  then show ?thesis
    by (auto simp add: toggle_annotation_format_def Let_def load_annotations_files)
next
  case (OpenDirectory chosen sz)
  then show ?thesis
    by (simp add: open_directory_def Let_def load_current_image_files split: option.split)
qed (simp_all add: previous_image_def next_image_def toggle_auto_save_def close_event_def
       Let_def load_current_image_files)

lemma handle_json_files:
  "json_files (handle a st)
     = (if calls_save a st then json_files (save_annotations st) else json_files st)"
proof (cases a)
  case (Act b)
  then show ?thesis using perform_files [of b st] by simp
next
  case (ToggleFormat reply_yes)
  then show ?thesis
    by (auto simp add: toggle_annotation_format_def Let_def load_annotations_files)
next
  case (OpenDirectory chosen sz)
  then show ?thesis
    by (simp add: open_directory_def Let_def load_current_image_files split: option.split)
qed (simp_all add: previous_image_def next_image_def toggle_auto_save_def close_event_def
       Let_def load_current_image_files)

text \<open>
  Claim C8, amended. \<^verbatim>\<open>undo\<close> and \<^verbatim>\<open>redo\<close> leave every annotation file as it is, whatever
  \<^verbatim>\<open>auto_save\<close> says; so does every edit. A handler changes the files only by calling
  \<^verbatim>\<open>save_annotations\<close>, and then they are what \<^verbatim>\<open>save_annotations\<close> makes of them in the
  state the handler started in. The handlers that call it are the explicit save, the
  navigation to the previous or next image with \<^verbatim>\<open>auto_save\<close> on, the format switch when
  there is a current image with a non-empty store (with \<^verbatim>\<open>auto_save\<close> on, or when the user
  answers yes), and the closing of the window with \<^verbatim>\<open>auto_save\<close> on.
\<close>
theorem undo_redo_write_nothing:
  "txt_files (undo st) = txt_files st \<and> json_files (undo st) = json_files st \<and>
   txt_files (redo st) = txt_files st \<and> json_files (redo st) = json_files st \<and>
   txt_files (perform a st) = txt_files st \<and> json_files (perform a st) = json_files st \<and>
   txt_files (handle u st)
     = (if calls_save u st then txt_files (save_annotations st) else txt_files st) \<and>
   json_files (handle u st)
     = (if calls_save u st then json_files (save_annotations st) else json_files st)"
  using perform_files [of a st] handle_txt_files [of u st] handle_json_files [of u st]
  by (simp add: undo_def redo_def)

theorem undo_redo_write_nothing_witness:
  "auto_save edited_window \<and> undo_stack edited_window \<noteq> [] \<and> redo_stack edited_window \<noteq> [] \<and>
   txt_files (undo edited_window) = Map.empty \<and> json_files (undo edited_window) = Map.empty \<and>
   txt_files (redo edited_window) = Map.empty \<and> json_files (redo edited_window) = Map.empty \<and>
   calls_save Save edited_window \<and>
   txt_files (handle Save edited_window) ''a.jpg''
     = Some (join_space (txt_coords [1 \<mapsto> (1 / 4, 1 / 4)]))"
  using undo_redo_write_nothing [of edited_window Undo Save]
  by (simp add: edited_window_fields save_annotations_def save_txt_annotations_def Let_def)

lemma annotated_window_fields:
  "current_image_index annotated_window = 0"
  "image_files annotated_window = [''a.jpg'']"
  "keypoints_data annotated_window = [1 \<mapsto> (1 / 2, 1 / 2)]"
  "auto_save annotated_window = True"
  "annotation_format annotated_window = Txt"
  "txt_files annotated_window = Map.empty"
  "json_files annotated_window = Map.empty"
  by (simp_all add: annotated_window_def opened_window_def initial_window_def)

lemma annotated_window_saved:
  "txt_files (save_annotations annotated_window) ''a.jpg''
     = Some (join_space (txt_coords [1 \<mapsto> (1 / 2, 1 / 2)]))"
  "txt_files (save_annotations (annotated_window\<lparr>auto_save := False\<rparr>)) ''a.jpg''
     = Some (join_space (txt_coords [1 \<mapsto> (1 / 2, 1 / 2)]))"
  by (simp_all add: save_annotations_def save_txt_annotations_def annotated_window_fields Let_def)

text \<open>
  Claim C8 as stated fails in its last clause: the format switch and the closing of the
  window write the file of the current image, and they are neither the explicit save nor
  a navigation. With point 1 placed and nothing saved, each of them creates the TXT file
  of \<^verbatim>\<open>a.jpg\<close>; the format switch does so with \<^verbatim>\<open>auto_save\<close> off too, once the user
  answers yes.
\<close>
theorem save_only_counterexample:
  "txt_files annotated_window ''a.jpg'' = None \<and>
   auto_save annotated_window \<and>
   txt_files (handle (ToggleFormat False) annotated_window) ''a.jpg''
     = Some (join_space (txt_coords [1 \<mapsto> (1 / 2, 1 / 2)])) \<and>
   txt_files (handle CloseWindow annotated_window) ''a.jpg''
     = Some (join_space (txt_coords [1 \<mapsto> (1 / 2, 1 / 2)])) \<and>
   txt_files (handle (ToggleFormat True) (annotated_window\<lparr>auto_save := False\<rparr>)) ''a.jpg''
     = Some (join_space (txt_coords [1 \<mapsto> (1 / 2, 1 / 2)]))"
  unfolding handle_txt_files
  by (simp add: annotated_window_fields annotated_window_saved)

end
